theory Spec2Isabelle
  imports Complex_Main
begin

section \<open>Farm machinery scheduling: the model of \<open>app/api/schedule/route.ts\<close>\<close>

text \<open>
  Numbers. The source computes with JavaScript numbers. A finite number is modelled as a
  \<open>real\<close>: arithmetic is exact, so rounding and overflow of IEEE doubles are not part of
  the model. The non-finite values that the source can produce from finite inputs
  (a division by an array length that is zero, \<open>Math.max\<close> of no arguments, the
  \<open>Number.POSITIVE_INFINITY\<close> of the path search) are modelled explicitly by \<open>jsnum\<close>.
  A point \<open>{x, y}\<close> is a pair of reals.
\<close>

type_synonym point = "real \<times> real"

datatype jsnum = Finite real | PosInf | NegInf | NaN

text \<open>Division of two finite numbers; a zero divisor is the positive zero of an array length.\<close>

definition js_div :: "real \<Rightarrow> real \<Rightarrow> jsnum" where
  "js_div a b =
     (if b = 0 then (if a = 0 then NaN else if 0 < a then PosInf else NegInf)
      else Finite (a / b))"

fun js_divide :: "jsnum \<Rightarrow> jsnum \<Rightarrow> jsnum" where
  "js_divide NaN _ = NaN"
| "js_divide _ NaN = NaN"
| "js_divide (Finite a) (Finite b) = js_div a b"
| "js_divide (Finite a) _ = Finite 0"
| "js_divide PosInf (Finite b) = (if b < 0 then NegInf else PosInf)"
| "js_divide NegInf (Finite b) = (if b < 0 then PosInf else NegInf)"
| "js_divide _ _ = NaN"

fun js_add :: "jsnum \<Rightarrow> jsnum \<Rightarrow> jsnum" where
  "js_add NaN _ = NaN"
| "js_add _ NaN = NaN"
| "js_add (Finite a) (Finite b) = Finite (a + b)"
| "js_add PosInf NegInf = NaN"
| "js_add NegInf PosInf = NaN"
| "js_add PosInf _ = PosInf"
| "js_add NegInf _ = NegInf"
| "js_add (Finite a) b = b"

fun js_neg :: "jsnum \<Rightarrow> jsnum" where
  "js_neg NaN = NaN"
| "js_neg (Finite a) = Finite (- a)"
| "js_neg PosInf = NegInf"
| "js_neg NegInf = PosInf"

definition js_sub :: "jsnum \<Rightarrow> jsnum \<Rightarrow> jsnum" where
  "js_sub a b = js_add a (js_neg b)"

fun js_sign :: "jsnum \<Rightarrow> real" where
  "js_sign (Finite a) = sgn a"
| "js_sign PosInf = 1"
| "js_sign NegInf = - 1"
| "js_sign NaN = 0"

fun js_mul :: "jsnum \<Rightarrow> jsnum \<Rightarrow> jsnum" where
  "js_mul NaN _ = NaN"
| "js_mul _ NaN = NaN"
| "js_mul (Finite a) (Finite b) = Finite (a * b)"
| "js_mul a b =
     (if js_sign a * js_sign b = 0 then NaN
      else if 0 < js_sign a * js_sign b then PosInf else NegInf)"

text \<open>\<open>Math.max\<close> of two numbers: \<open>NaN\<close> as soon as one argument is.\<close>

fun js_max :: "jsnum \<Rightarrow> jsnum \<Rightarrow> jsnum" where
  "js_max NaN _ = NaN"
| "js_max _ NaN = NaN"
| "js_max PosInf _ = PosInf"
| "js_max _ PosInf = PosInf"
| "js_max NegInf b = b"
| "js_max a NegInf = a"
| "js_max (Finite a) (Finite b) = Finite (max a b)"

subsection \<open>Data model\<close>

record Field =
  f_id :: int
  f_x :: real
  f_y :: real
  f_width :: real
  f_height :: real

record PathPoint =
  pp_x :: real
  pp_y :: real
  timestamp :: real
  action :: string

record SupplyEvent =
  se_time :: real
  se_duration :: real

record Parameters =
  fieldWidth :: real
  fieldHeight :: real
  totalFields :: real
  machineCapacity :: real
  supplyDuration :: real

record ScheduleRequest =
  machineCount :: nat
  req_fields :: "Field list"
  baseStation :: point
  parameters :: Parameters

record MachineRoute =
  machineId :: nat
  mr_path :: "PathPoint list"
  color :: string
  mr_supplyEvents :: "SupplyEvent list"

record ScheduleResult =
  machines :: "MachineRoute list"
  totalTime :: jsnum
  efficiency :: jsnum
  totalSupplyEvents :: nat
  res_baseStation :: point
  res_roadNetwork :: "point list"

text \<open>
  A road node. The source's \<open>connections\<close> holds references to other nodes of the same
  array, and the path search keys its maps by node identity; the model names a node by
  its index in the network. The \<open>id\<close> string of the source is the key \<open>"x,y"\<close>, a function
  of the coordinates that is never read, and is left out.
\<close>

record RoadNode =
  n_x :: real
  n_y :: real
  connections :: "nat list"

record MachineState =
  m_id :: nat
  currentCapacity :: real
  position :: point
  currentTime :: real
  path :: "PathPoint list"
  supplyEvents :: "SupplyEvent list"
  isIdle :: bool

record FieldWorkState =
  field :: Field
  completedPercentage :: real
  isCompleted :: bool
  workingMachine :: "nat option"
  assignedMachines :: "nat list"
  lastWorkPosition :: "point option"
  workPath :: "point list"

subsection \<open>Geometry utilities\<close>

text \<open>\<open>Math.round\<close> rounds half up.\<close>

definition js_round :: "real \<Rightarrow> real" where
  "js_round v = of_int \<lfloor>v + 1 / 2\<rfloor>"

definition snapToGrid :: "point \<Rightarrow> point" where
  "snapToGrid p = (js_round (fst p), js_round (snd p))"

definition calculateDistance :: "point \<Rightarrow> point \<Rightarrow> real" where
  "calculateDistance p1 p2 = sqrt ((fst p2 - fst p1)\<^sup>2 + (snd p2 - snd p1)\<^sup>2)"

definition insideField :: "point \<Rightarrow> Field \<Rightarrow> bool" where
  "insideField p f \<longleftrightarrow>
     fst p > f_x f \<and> fst p < f_x f + f_width f \<and> snd p > f_y f \<and> snd p < f_y f + f_height f"

definition isPointInsideAnyField :: "point \<Rightarrow> Field list \<Rightarrow> bool" where
  "isPointInsideAnyField p fs = list_ex (insideField p) fs"

subsection \<open>Field coverage path\<close>

definition coverageRow :: "Field \<Rightarrow> real \<Rightarrow> int \<Rightarrow> int \<Rightarrow> int \<Rightarrow> point list" where
  "coverageRow fld startPercentage totalRows startRow i =
     (let y = f_y fld + (of_int i * f_height fld) / of_int totalRows in
      if i mod 2 = 0 then
        [if i = startRow \<and> startPercentage > 0
         then (f_x fld + (startPercentage * of_int totalRows - of_int startRow) * f_width fld, y)
         else (f_x fld, y),
         (f_x fld + f_width fld, y)]
      else
        [if i = startRow \<and> startPercentage > 0
         then (f_x fld + f_width fld
                 - (startPercentage * of_int totalRows - of_int startRow) * f_width fld, y)
         else (f_x fld + f_width fld, y),
         (f_x fld, y)])"

definition totalRowsOf :: "Field \<Rightarrow> int" where
  "totalRowsOf fld = max 1 \<lfloor>f_height fld / 5\<rfloor>"

definition generateContinuousFieldWorkPath :: "Field \<Rightarrow> real \<Rightarrow> real \<Rightarrow> point list" where
  "generateContinuousFieldWorkPath fld startPercentage workPercentage =
     (let totalRows = totalRowsOf fld;
          startRow = \<lfloor>startPercentage * of_int totalRows\<rfloor>;
          endRow = min totalRows \<lceil>(startPercentage + workPercentage) * of_int totalRows\<rceil>
      in concat (map (coverageRow fld startPercentage totalRows startRow) [startRow..endRow - 1]))"

subsection \<open>Road network builder\<close>

text \<open>
  The two nested \<open>for\<close> loops over the grid. During construction the nodes are listed by
  their coordinates, in creation order; \<open>nodeMap.has(key)\<close> is membership of the
  coordinate pair in that list, since \<open>nodes\<close> and \<open>nodeMap\<close> are always extended together.
\<close>

definition roadSpacing :: real where
  "roadSpacing = 10"

lemma grid_measure:
  fixes y :: real
  assumes "y \<le> maxY"
  shows "nat (\<lfloor>(maxY - (y + 10)) / 10\<rfloor> + 1) < nat (\<lfloor>(maxY - y) / 10\<rfloor> + 1)"
proof -
  have e: "(maxY - (y + 10)) / 10 = (maxY - y) / 10 - 1"
    by (simp add: field_simps)
  have "0 \<le> \<lfloor>(maxY - y) / 10\<rfloor>"
    using assms by simp
  then show ?thesis
    unfolding e by simp
qed

function gridColumn :: "Field list \<Rightarrow> real \<Rightarrow> real \<Rightarrow> real \<Rightarrow> point list" where
  "gridColumn fs x y maxY =
     (if y \<le> maxY
      then (if \<not> isPointInsideAnyField (x, y) fs then [(x, y)] else [])
             @ gridColumn fs x (y + roadSpacing) maxY
      else [])"
  by pat_completeness auto
termination
proof (relation "measure (\<lambda>(fs, x, y, maxY). nat (\<lfloor>(maxY - y) / 10\<rfloor> + 1))")
  show "wf (measure (\<lambda>(fs :: Field list, x :: real, y :: real, maxY :: real).
          nat (\<lfloor>(maxY - y) / 10\<rfloor> + 1)))"
    by simp
next
  fix fs :: "Field list" and x y maxY :: real
  assume "y \<le> maxY"
  from grid_measure [OF this]
  show "((fs, x, y + roadSpacing, maxY), fs, x, y, maxY)
          \<in> measure (\<lambda>(fs, x, y, maxY). nat (\<lfloor>(maxY - y) / 10\<rfloor> + 1))"
    by (simp add: roadSpacing_def)
qed

function gridNodes :: "Field list \<Rightarrow> real \<Rightarrow> real \<Rightarrow> real \<Rightarrow> real \<Rightarrow> point list" where
  "gridNodes fs x maxX minY maxY =
     (if x \<le> maxX
      then gridColumn fs x minY maxY @ gridNodes fs (x + roadSpacing) maxX minY maxY
      else [])"
  by pat_completeness auto
termination
proof (relation "measure (\<lambda>(fs, x, maxX, minY, maxY). nat (\<lfloor>(maxX - x) / 10\<rfloor> + 1))")
  show "wf (measure (\<lambda>(fs :: Field list, x :: real, maxX :: real, minY :: real, maxY :: real).
          nat (\<lfloor>(maxX - x) / 10\<rfloor> + 1)))"
    by simp
next
  fix fs :: "Field list" and x maxX minY maxY :: real
  assume "x \<le> maxX"
  from grid_measure [OF this]
  show "((fs, x + roadSpacing, maxX, minY, maxY), fs, x, maxX, minY, maxY)
          \<in> measure (\<lambda>(fs, x, maxX, minY, maxY). nat (\<lfloor>(maxX - x) / 10\<rfloor> + 1))"
    by (simp add: roadSpacing_def)
qed

definition addNode :: "point \<Rightarrow> point list \<Rightarrow> point list" where
  "addNode p nodes = (if p \<in> set nodes then nodes else nodes @ [p])"

definition addBaseNode :: "Field list \<Rightarrow> point \<Rightarrow> point list \<Rightarrow> point list" where
  "addBaseNode fs base nodes =
     (if \<not> isPointInsideAnyField base fs then addNode base nodes else nodes)"

definition corners :: "Field \<Rightarrow> point list" where
  "corners f =
     [(f_x f, f_y f), (f_x f + f_width f, f_y f),
      (f_x f, f_y f + f_height f), (f_x f + f_width f, f_y f + f_height f)]"

definition addCornerNodes :: "Field list \<Rightarrow> point list \<Rightarrow> point list" where
  "addCornerNodes fs nodes = fold (\<lambda>f ns. fold addNode (corners f) ns) fs nodes"

definition doesPathCrossFields :: "point \<Rightarrow> point \<Rightarrow> Field list \<Rightarrow> bool" where
  "doesPathCrossFields from to fs =
     list_ex (\<lambda>i. isPointInsideAnyField
                     (fst from + (fst to - fst from) * (real i / 10),
                      snd from + (snd to - snd from) * (real i / 10)) fs) [1..<10]"

definition connectionsOf :: "Field list \<Rightarrow> point list \<Rightarrow> nat \<Rightarrow> nat list" where
  "connectionsOf fs nodes i =
     filter (\<lambda>j. j \<noteq> i
                 \<and> calculateDistance (nodes ! i) (nodes ! j) \<le> roadSpacing * 1.5
                 \<and> \<not> doesPathCrossFields (nodes ! i) (nodes ! j) fs) [0..<length nodes]"

definition connectNodes :: "Field list \<Rightarrow> point list \<Rightarrow> RoadNode list" where
  "connectNodes fs nodes =
     map (\<lambda>i. \<lparr>n_x = fst (nodes ! i), n_y = snd (nodes ! i), connections = connectionsOf fs nodes i\<rparr>)
         [0..<length nodes]"

definition nodePoints :: "Field list \<Rightarrow> point \<Rightarrow> point list" where
  "nodePoints fs base =
     (let minX = fold min (map f_x fs) (fst base) - 20;
          maxX = fold max (map (\<lambda>f. f_x f + f_width f) fs) (fst base) + 20;
          minY = fold min (map f_y fs) (snd base) - 20;
          maxY = fold max (map (\<lambda>f. f_y f + f_height f) fs) (snd base) + 20
      in addCornerNodes fs (addBaseNode fs base (gridNodes fs minX maxX minY maxY)))"

definition generateFieldRoadNetwork :: "Field list \<Rightarrow> point \<Rightarrow> RoadNode list" where
  "generateFieldRoadNetwork fs base = connectNodes fs (nodePoints fs base)"

definition coords :: "RoadNode \<Rightarrow> point" where
  "coords n = (n_x n, n_y n)"

subsection \<open>Shortest path finder\<close>

text \<open>
  \<open>v || Number.POSITIVE_INFINITY\<close>: a falsy number (zero or \<open>NaN\<close>) gives infinity. The maps
  \<open>distances\<close> and \<open>previous\<close> are keyed by node, here by node index; \<open>distances\<close> is only
  ever read through \<open>|| Number.POSITIVE_INFINITY\<close> and \<open>previous\<close> through \<open>|| null\<close>, so
  an absent key reads as \<open>PosInf\<close> and \<open>None\<close>.
\<close>

definition orInfinity :: "jsnum \<Rightarrow> jsnum" where
  "orInfinity v = (if v = Finite 0 \<or> v = NaN then PosInf else v)"

fun js_less :: "jsnum \<Rightarrow> jsnum \<Rightarrow> bool" where
  "js_less NaN _ = False"
| "js_less _ NaN = False"
| "js_less (Finite a) (Finite b) = (a < b)"
| "js_less _ NegInf = False"
| "js_less PosInf _ = False"
| "js_less _ _ = True"

text \<open>\<open>roadNetwork.reduce\<close> without an initial value: it throws on an empty array
  (\<open>None\<close>), and otherwise starts from the first node.\<close>

definition nearestNode :: "point \<Rightarrow> RoadNode list \<Rightarrow> nat option" where
  "nearestNode p net =
     (if net = [] then None
      else Some (fold (\<lambda>k closest.
                   if calculateDistance p (coords (net ! k)) < calculateDistance p (coords (net ! closest))
                   then k else closest) [1..<length net] 0))"

definition selectStep :: "(nat \<Rightarrow> jsnum) \<Rightarrow> nat \<Rightarrow> nat option \<times> jsnum \<Rightarrow> nat option \<times> jsnum" where
  "selectStep distances node acc =
     (let dist = orInfinity (distances node)
      in if js_less dist (snd acc) then (Some node, dist) else acc)"

definition selectCurrent :: "(nat \<Rightarrow> jsnum) \<Rightarrow> nat list \<Rightarrow> nat option \<times> jsnum" where
  "selectCurrent distances unvisited = fold (selectStep distances) unvisited (None, PosInf)"

definition relaxNeighbor ::
  "RoadNode list \<Rightarrow> nat \<Rightarrow> nat list \<Rightarrow> nat
    \<Rightarrow> (nat \<Rightarrow> jsnum) \<times> (nat \<Rightarrow> nat option) \<Rightarrow> (nat \<Rightarrow> jsnum) \<times> (nat \<Rightarrow> nat option)" where
  "relaxNeighbor net current unvisited neighbor dp =
     (if neighbor \<in> set unvisited then
        (let alt = js_add (orInfinity (fst dp current))
                     (Finite (calculateDistance (coords (net ! current)) (coords (net ! neighbor))))
         in if js_less alt (orInfinity (fst dp neighbor))
            then ((fst dp)(neighbor := alt), (snd dp)(neighbor := Some current))
            else dp)
      else dp)"

lemma selectCurrent_mem_aux:
  "fst (fold (selectStep distances) U acc) = Some c \<Longrightarrow> c \<in> set U \<or> fst acc = Some c"
proof (induction U arbitrary: acc)
  case Nil
  then show ?case by simp
next
  case (Cons a U)
  from Cons.prems have "fst (fold (selectStep distances) U (selectStep distances a acc)) = Some c"
    by simp
  from Cons.IH [OF this] show ?case
    by (auto simp: selectStep_def Let_def split: if_splits)
qed

lemma selectCurrent_mem: "fst (selectCurrent distances U) = Some c \<Longrightarrow> c \<in> set U"
  using selectCurrent_mem_aux [of distances U "(None, PosInf)" c]
  by (simp add: selectCurrent_def)

function dijkstraLoop ::
  "RoadNode list \<Rightarrow> nat \<Rightarrow> (nat \<Rightarrow> jsnum) \<Rightarrow> (nat \<Rightarrow> nat option) \<Rightarrow> nat list
    \<Rightarrow> (nat \<Rightarrow> nat option)" where
  "dijkstraLoop net endNode distances previous unvisited =
     (if unvisited = [] then previous
      else case fst (selectCurrent distances unvisited) of
             None \<Rightarrow> previous
           | Some current \<Rightarrow>
               if current = endNode then previous
               else dijkstraLoop net endNode
                      (fst (fold (relaxNeighbor net current (removeAll current unvisited))
                              (connections (net ! current)) (distances, previous)))
                      (snd (fold (relaxNeighbor net current (removeAll current unvisited))
                              (connections (net ! current)) (distances, previous)))
                      (removeAll current unvisited))"
  by pat_completeness auto
termination
proof (relation "measure (\<lambda>(net, endNode, distances, previous, unvisited). length unvisited)")
  show "wf (measure (\<lambda>(net, endNode, distances, previous, unvisited). length unvisited))"
    by simp
next
  fix net :: "RoadNode list" and endNode :: nat and distances :: "nat \<Rightarrow> jsnum"
    and previous :: "nat \<Rightarrow> nat option" and unvisited :: "nat list" and current :: nat
  assume "fst (selectCurrent distances unvisited) = Some current"
  then have "current \<in> set unvisited"
    by (rule selectCurrent_mem)
  then have "length (removeAll current unvisited) < length unvisited"
    by (simp add: length_removeAll_less)
  then show "((net, endNode,
         fst (fold (relaxNeighbor net current (removeAll current unvisited))
               (connections (net ! current)) (distances, previous)),
         snd (fold (relaxNeighbor net current (removeAll current unvisited))
               (connections (net ! current)) (distances, previous)),
         removeAll current unvisited),
        net, endNode, distances, previous, unvisited)
       \<in> measure (\<lambda>(net, endNode, distances, previous, unvisited). length unvisited)"
    by simp
qed

text \<open>Walking the predecessor links back from the end node. Nothing in the loop itself
  bounds it, so a walk that does not return is \<open>None\<close>.\<close>

partial_function (option) reconstructPath ::
  "RoadNode list \<Rightarrow> (nat \<Rightarrow> nat option) \<Rightarrow> nat option \<Rightarrow> point list \<Rightarrow> point list option" where
  "reconstructPath net previous current acc =
     (case current of
        None \<Rightarrow> Some acc
      | Some c \<Rightarrow> reconstructPath net previous (previous c) (coords (net ! c) # acc))"

text \<open>The result is \<open>None\<close> when the call produces no path: \<open>reduce\<close> throws on an empty
  network, or the reconstruction does not return.\<close>

definition findShortestPath :: "point \<Rightarrow> point \<Rightarrow> RoadNode list \<Rightarrow> point list option" where
  "findShortestPath start end net =
     (case nearestNode start net of
        None \<Rightarrow> None
      | Some startNode \<Rightarrow>
         (case nearestNode end net of
            None \<Rightarrow> None
          | Some endNode \<Rightarrow>
             (case reconstructPath net
                     (dijkstraLoop net endNode ((\<lambda>_. PosInf)(startNode := Finite 0)) (\<lambda>_. None)
                        [0..<length net])
                     (Some endNode) [] of
                None \<Rightarrow> None
              | Some pth \<Rightarrow>
                  Some (if pth \<noteq> [] \<and> fst (hd pth) = n_x (net ! startNode)
                           \<and> snd (hd pth) = n_y (net ! startNode)
                        then pth
                        else [coords (net ! startNode), coords (net ! endNode)]))))"

subsection \<open>Entry point of a field\<close>

definition selectOptimalFieldEntryPoint :: "Field \<Rightarrow> point \<Rightarrow> point option \<Rightarrow> point" where
  "selectOptimalFieldEntryPoint fld base lastPos =
     (case lastPos of
        Some p \<Rightarrow> p
      | None \<Rightarrow>
          fst (fold (\<lambda>corner (closestCorner, minDistance).
                       if calculateDistance base corner < minDistance
                       then (corner, calculateDistance base corner)
                       else (closestCorner, minDistance))
                 (corners fld)
                 ((f_x fld, f_y fld), calculateDistance base (f_x fld, f_y fld))))"

subsection \<open>Work on a field\<close>

record WorkResult =
  pathSegments :: "PathPoint list"
  endPosition :: point
  capacityUsed :: real
  workTime :: real
  wr_workPath :: "point list"

definition mkPoint :: "point \<Rightarrow> real \<Rightarrow> string \<Rightarrow> PathPoint" where
  "mkPoint p t a = \<lparr>pp_x = fst p, pp_y = snd p, timestamp = t, action = a\<rparr>"

text \<open>One leg of the travel to the field: the machine is mutated, the snapped point is
  pushed on \<open>pathSegments\<close>.\<close>

definition travelStep :: "point \<Rightarrow> MachineState \<times> PathPoint list \<Rightarrow> MachineState \<times> PathPoint list" where
  "travelStep pt ms =
     (let t = currentTime (fst ms) + calculateDistance (position (fst ms)) pt / 5
      in ((fst ms)\<lparr>currentTime := t, position := pt\<rparr>,
          snd ms @ [mkPoint (snapToGrid pt) t ''road_travel'']))"

text \<open>One leg of the emergency return: only \<open>returnTime\<close> and \<open>pathSegments\<close> change.\<close>

definition emergencyStep ::
  "MachineState \<Rightarrow> point \<Rightarrow> point \<Rightarrow> real \<times> PathPoint list \<Rightarrow> real \<times> PathPoint list" where
  "emergencyStep m gridPoint returnPoint acc =
     (let returnTime = fst acc + calculateDistance gridPoint returnPoint / 5
      in (returnTime,
          snd acc @ [mkPoint returnPoint (currentTime m + returnTime) ''emergency_road_travel'']))"

fun workLoop ::
  "MachineState \<Rightarrow> point \<Rightarrow> RoadNode list \<Rightarrow> real \<Rightarrow> real \<Rightarrow> point list \<Rightarrow> WorkResult
    \<Rightarrow> WorkResult option" where
  "workLoop m base net capacityPerPoint timePerPoint [] r = Some r"
| "workLoop m base net capacityPerPoint timePerPoint (p # ps) r =
     (let gridPoint = snapToGrid p;
          nextCapacityUsed = capacityUsed r + capacityPerPoint
      in if currentCapacity m - nextCapacityUsed < 0.05 then
           (case findShortestPath gridPoint base net of
              None \<Rightarrow> None
            | Some returnPath \<Rightarrow>
                (let acc = fold (emergencyStep m gridPoint) (drop 1 returnPath)
                             (workTime r + timePerPoint,
                              pathSegments r
                                @ [mkPoint gridPoint (currentTime m + workTime r + timePerPoint)
                                     ''capacity_full''])
                 in Some \<lparr>pathSegments = snd acc, endPosition = gridPoint,
                           capacityUsed = nextCapacityUsed, workTime = fst acc,
                           wr_workPath = wr_workPath r @ [gridPoint]\<rparr>))
         else workLoop m base net capacityPerPoint timePerPoint ps
                \<lparr>pathSegments = pathSegments r
                    @ [mkPoint gridPoint (currentTime m + (workTime r + timePerPoint)) ''working''],
                 endPosition = gridPoint, capacityUsed = nextCapacityUsed,
                 workTime = workTime r + timePerPoint,
                 wr_workPath = wr_workPath r @ [gridPoint]\<rparr>)"

text \<open>The function mutates the machine it is given (time and position, during the travel
  to the field), so the model returns the machine with the result.\<close>

definition executeFieldWorkWithRoadNetwork ::
  "MachineState \<Rightarrow> FieldWorkState \<Rightarrow> real \<Rightarrow> RoadNode list \<Rightarrow> point
    \<Rightarrow> (MachineState \<times> WorkResult) option" where
  "executeFieldWorkWithRoadNetwork m fs machCap net base =
     (let remainingWork = max 0 (1.0 - completedPercentage fs);
          availableCapacity = min (currentCapacity m) remainingWork
      in if availableCapacity \<le> 0.05
         then Some (m, \<lparr>pathSegments = [], endPosition = position m, capacityUsed = 0,
                        workTime = 0, wr_workPath = []\<rparr>)
         else
          (let workStartPoint =
                 selectOptimalFieldEntryPoint (field fs) base (lastWorkPosition fs)
           in case findShortestPath (position m) workStartPoint net of
                None \<Rightarrow> None
              | Some travelPath \<Rightarrow>
                 (let travelled = fold travelStep (drop 1 travelPath) (m, []);
                      gridStartPoint = snapToGrid workStartPoint;
                      m' = (fst travelled)\<lparr>position := gridStartPoint\<rparr>;
                      segs = snd travelled @ [mkPoint gridStartPoint (currentTime m') ''field_start''];
                      fieldWorkPath =
                        generateContinuousFieldWorkPath (field fs) (completedPercentage fs)
                          availableCapacity
                  in if fieldWorkPath = []
                     then Some (m', \<lparr>pathSegments = segs, endPosition = gridStartPoint,
                                     capacityUsed = 0, workTime = 0, wr_workPath = []\<rparr>)
                     else
                      (case workLoop m' base net
                              (availableCapacity / real (length fieldWorkPath))
                              ((availableCapacity * 180) / real (length fieldWorkPath))
                              fieldWorkPath
                              \<lparr>pathSegments = segs, endPosition = gridStartPoint,
                               capacityUsed = 0, workTime = 0, wr_workPath = []\<rparr> of
                         None \<Rightarrow> None
                       | Some r \<Rightarrow> Some (m', r)))))"

subsection \<open>Scheduling simulator\<close>

text \<open>The variables of \<open>generateScheduleWithRoadNetwork\<close> that the loop body reads.\<close>

record SimCtx =
  gridBaseStation :: point
  roadNetwork :: "RoadNode list"
  ctx_machineCapacity :: real
  ctx_supplyDuration :: real

text \<open>One leg of a trip on the road (resupply and final return): the point is pushed on
  the machine's own path.\<close>

definition roadTravelStep :: "point \<Rightarrow> MachineState \<Rightarrow> MachineState" where
  "roadTravelStep pt m =
     (let t = currentTime m + calculateDistance (position m) pt / 5
      in m\<lparr>currentTime := t, position := pt, path := path m @ [mkPoint pt t ''road_travel'']\<rparr>)"

definition resupply :: "SimCtx \<Rightarrow> MachineState \<Rightarrow> MachineState option" where
  "resupply ctx m =
     (case findShortestPath (position m) (gridBaseStation ctx) (roadNetwork ctx) of
        None \<Rightarrow> None
      | Some returnPath \<Rightarrow>
         (let m1 = fold roadTravelStep (drop 1 returnPath) m;
              m2 = m1\<lparr>path := path m1 @ [mkPoint (gridBaseStation ctx) (currentTime m1) ''supply''],
                       supplyEvents := supplyEvents m1
                         @ [\<lparr>se_time = currentTime m1, se_duration = ctx_supplyDuration ctx\<rparr>]\<rparr>;
              m3 = m2\<lparr>currentTime := currentTime m2 + ctx_supplyDuration ctx,
                       currentCapacity := ctx_machineCapacity ctx,
                       position := gridBaseStation ctx\<rparr>
          in Some (m3\<lparr>path := path m3
                     @ [mkPoint (gridBaseStation ctx) (currentTime m3) ''supply_complete'']\<rparr>)))"

text \<open>The body of the \<open>for\<close> loop for a machine that is free and a field that is open.\<close>

definition machineTurn ::
  "SimCtx \<Rightarrow> MachineState \<Rightarrow> FieldWorkState \<Rightarrow> (MachineState \<times> FieldWorkState) option" where
  "machineTurn ctx m fs =
     (case (if currentCapacity m < 0.1 then resupply ctx m else Some m) of
        None \<Rightarrow> None
      | Some m1 \<Rightarrow>
         (case executeFieldWorkWithRoadNetwork m1 fs (ctx_machineCapacity ctx) (roadNetwork ctx)
                 (gridBaseStation ctx) of
            None \<Rightarrow> None
          | Some (m2, workResult) \<Rightarrow>
             (let m3 = m2\<lparr>currentCapacity := currentCapacity m2 - capacityUsed workResult,
                          currentTime := currentTime m2 + workTime workResult,
                          position := endPosition workResult,
                          path := path m2 @ pathSegments workResult\<rparr>;
                  fs1 = fs\<lparr>completedPercentage := completedPercentage fs + capacityUsed workResult,
                           lastWorkPosition := Some (endPosition workResult),
                           workPath := workPath fs @ wr_workPath workResult\<rparr>
              in Some (m3, if completedPercentage fs1 \<ge> 0.99
                           then fs1\<lparr>isCompleted := True\<rparr> else fs1))))"

text \<open>\<open>fieldStates.find((fs) => !fs.isCompleted)\<close>, as the index of the field found.\<close>

fun findIncomplete :: "FieldWorkState list \<Rightarrow> nat option" where
  "findIncomplete [] = None"
| "findIncomplete (fs # rest) =
     (if \<not> isCompleted fs then Some 0 else map_option Suc (findIncomplete rest))"

text \<open>The \<open>for (const machine of machines)\<close> loop of one tick, with its \<open>continue\<close> and
  \<open>break\<close>.\<close>

fun forMachines ::
  "SimCtx \<Rightarrow> real \<Rightarrow> MachineState list \<Rightarrow> FieldWorkState list
    \<Rightarrow> (MachineState list \<times> FieldWorkState list) option" where
  "forMachines ctx t [] fss = Some ([], fss)"
| "forMachines ctx t (m # ms) fss =
     (if currentTime m > t then
        (case forMachines ctx t ms fss of
           None \<Rightarrow> None
         | Some (ms', fss') \<Rightarrow> Some (m # ms', fss'))
      else
        (case findIncomplete fss of
           None \<Rightarrow> Some (m # ms, fss)
         | Some k \<Rightarrow>
            (case machineTurn ctx m (fss ! k) of
               None \<Rightarrow> None
             | Some (m', fs') \<Rightarrow>
                (case forMachines ctx t ms (fss[k := fs']) of
                   None \<Rightarrow> None
                 | Some (ms', fss') \<Rightarrow> Some (m' # ms', fss')))))"

definition maxTime :: real where
  "maxTime = 3600 * 8"

lemma tick_measure:
  fixes t :: real
  assumes "t < maxTime"
  shows "nat \<lceil>(maxTime - (t + 60)) / 60\<rceil> < nat \<lceil>(maxTime - t) / 60\<rceil>"
proof -
  have e: "(maxTime - (t + 60)) / 60 = (maxTime - t) / 60 - 1"
    by (simp add: field_simps)
  have "0 < \<lceil>(maxTime - t) / 60\<rceil>"
    using assms by simp
  then show ?thesis
    unfolding e by simp
qed

text \<open>The outer \<open>while\<close> loop. The counter \<open>n\<close> is not in the source: it counts the
  iterations that have been executed.\<close>

function simLoop ::
  "SimCtx \<Rightarrow> real \<Rightarrow> nat \<Rightarrow> MachineState list \<Rightarrow> FieldWorkState list
    \<Rightarrow> (MachineState list \<times> FieldWorkState list \<times> nat) option" where
  "simLoop ctx t n ms fss =
     (if t < maxTime \<and> list_ex (\<lambda>fs. \<not> isCompleted fs) fss then
        (case forMachines ctx t ms fss of
           None \<Rightarrow> None
         | Some (ms', fss') \<Rightarrow> simLoop ctx (t + 60) (Suc n) ms' fss')
      else Some (ms, fss, n))"
  by pat_completeness auto
termination
proof (relation "measure (\<lambda>(ctx, t, n, ms, fss). nat \<lceil>(maxTime - t) / 60\<rceil>)")
  show "wf (measure (\<lambda>(ctx :: SimCtx, t :: real, n :: nat, ms :: MachineState list,
          fss :: FieldWorkState list). nat \<lceil>(maxTime - t) / 60\<rceil>))"
    by simp
next
  fix ctx :: SimCtx and t :: real and n :: nat and ms ms' :: "MachineState list"
    and fss fss' :: "FieldWorkState list" and x2 x
  assume "t < maxTime \<and> list_ex (\<lambda>fs. \<not> isCompleted fs) fss"
  then have "t < maxTime"
    by simp
  from tick_measure [OF this]
  show "((ctx, t + 60, Suc n, ms', fss'), ctx, t, n, ms, fss)
          \<in> measure (\<lambda>(ctx, t, n, ms, fss). nat \<lceil>(maxTime - t) / 60\<rceil>)"
    by simp
qed

definition returnToBase :: "SimCtx \<Rightarrow> MachineState \<Rightarrow> MachineState option" where
  "returnToBase ctx m =
     (if fst (position m) \<noteq> fst (gridBaseStation ctx) \<or> snd (position m) \<noteq> snd (gridBaseStation ctx)
      then
        (case findShortestPath (position m) (gridBaseStation ctx) (roadNetwork ctx) of
           None \<Rightarrow> None
         | Some returnPath \<Rightarrow>
            (let m1 = fold roadTravelStep (drop 1 returnPath) m
             in Some (m1\<lparr>path := path m1
                        @ [mkPoint (gridBaseStation ctx) (currentTime m1) ''return'']\<rparr>)))
      else Some m)"

subsection \<open>Efficiency scorer\<close>

definition calculateEfficiency :: "MachineState list \<Rightarrow> FieldWorkState list \<Rightarrow> jsnum" where
  "calculateEfficiency ms fss =
     (let completedFields = length (filter isCompleted fss);
          totalFds = length fss;
          completionRate = js_divide (Finite (real completedFields)) (Finite (real totalFds));
          avgTime = js_divide (fold (\<lambda>m sum. js_add sum (Finite (currentTime m))) ms (Finite 0))
                      (Finite (real (length ms)));
          timeVariance =
            js_divide
              (fold (\<lambda>m sum. js_add sum
                       (js_mul (js_sub (Finite (currentTime m)) avgTime)
                               (js_sub (Finite (currentTime m)) avgTime))) ms (Finite 0))
              (Finite (real (length ms)));
          balanceScore =
            js_max (Finite 0.5)
              (js_sub (Finite 1)
                 (js_divide timeVariance (js_add (js_mul avgTime avgTime) (Finite 1))))
      in js_mul completionRate balanceScore)"

subsection \<open>The scheduler\<close>

definition colors :: "string list" where
  "colors = [''#3b82f6'', ''#ef4444'', ''#f59e0b'', ''#8b5cf6'', ''#ec4899'', ''#06b6d4'',
             ''#f97316'', ''#6366f1'']"

definition initMachine :: "point \<Rightarrow> real \<Rightarrow> nat \<Rightarrow> MachineState" where
  "initMachine base cap i =
     \<lparr>m_id = i + 1, currentCapacity = cap, position = base, currentTime = 0,
      path = [mkPoint base 0 ''start''], supplyEvents = [], isIdle = True\<rparr>"

definition initFieldState :: "Field \<Rightarrow> FieldWorkState" where
  "initFieldState f =
     \<lparr>field = f, completedPercentage = 0, isCompleted = False, workingMachine = None,
      assignedMachines = [], lastWorkPosition = None, workPath = []\<rparr>"

definition toRoute :: "MachineState \<Rightarrow> MachineRoute" where
  "toRoute m =
     \<lparr>machineId = m_id m, mr_path = path m,
      color = colors ! ((m_id m - 1) mod length colors),
      mr_supplyEvents = supplyEvents m\<rparr>"

definition simCtx :: "ScheduleRequest \<Rightarrow> SimCtx" where
  "simCtx req =
     \<lparr>gridBaseStation = snapToGrid (baseStation req),
      roadNetwork = generateFieldRoadNetwork (req_fields req) (snapToGrid (baseStation req)),
      ctx_machineCapacity = machineCapacity (parameters req),
      ctx_supplyDuration = supplyDuration (parameters req)\<rparr>"

text \<open>The simulation for a request with at least one field: the machines and field states
  when the results are computed (after the return to the base station), with the number
  of iterations of the outer loop.\<close>

definition simulate ::
  "ScheduleRequest \<Rightarrow> (MachineState list \<times> FieldWorkState list \<times> nat) option" where
  "simulate req =
     (case simLoop (simCtx req) 0 0
             (map (initMachine (snapToGrid (baseStation req)) (machineCapacity (parameters req)))
                [0..<machineCount req])
             (map initFieldState (req_fields req)) of
        None \<Rightarrow> None
      | Some (ms, fss, n) \<Rightarrow>
         (case those (map (returnToBase (simCtx req)) ms) of
            None \<Rightarrow> None
          | Some ms' \<Rightarrow> Some (ms', fss, n)))"

definition generateScheduleWithRoadNetwork :: "ScheduleRequest \<Rightarrow> ScheduleResult option" where
  "generateScheduleWithRoadNetwork req =
     (if req_fields req = []
      then Some \<lparr>machines = [], totalTime = Finite 0, efficiency = Finite 0,
                 totalSupplyEvents = 0, res_baseStation = snapToGrid (baseStation req),
                 res_roadNetwork = []\<rparr>
      else
       (case simulate req of
          None \<Rightarrow> None
        | Some (ms, fss, n) \<Rightarrow>
           Some \<lparr>machines = map toRoute ms,
                 totalTime = js_divide (fold js_max (map (\<lambda>m. Finite (currentTime m)) ms) NegInf)
                               (Finite 60),
                 efficiency = calculateEfficiency ms fss,
                 totalSupplyEvents = fold (\<lambda>m sum. sum + length (supplyEvents m)) ms 0,
                 res_baseStation = snapToGrid (baseStation req),
                 res_roadNetwork = map coords (roadNetwork (simCtx req))\<rparr>))"

subsection \<open>Auxiliary notions and scenario data\<close>

text \<open>The coordinates of the network node that a query point snaps to.\<close>

definition snapNode :: "point \<Rightarrow> RoadNode list \<Rightarrow> point" where
  "snapNode p net = coords (net ! the (nearestNode p net))"

text \<open>The field and the parameters of the single-field scenario of the specification.\<close>

definition field1 :: Field where
  "field1 = \<lparr>f_id = 1, f_x = 0, f_y = 0, f_width = 100, f_height = 80\<rparr>"

definition params1 :: Parameters where
  "params1 = \<lparr>fieldWidth = 100, fieldHeight = 80, totalFields = 1, machineCapacity = 1 / 2,
              supplyDuration = 30\<rparr>"

text \<open>Two overlapping fields: a corner of the second lies inside the first.\<close>

definition fieldA :: Field where
  "fieldA = \<lparr>f_id = 1, f_x = 0, f_y = 0, f_width = 10, f_height = 10\<rparr>"

definition fieldB :: Field where
  "fieldB = \<lparr>f_id = 2, f_x = 5, f_y = 5, f_width = 10, f_height = 10\<rparr>"

text \<open>A network of two nodes, each connected to the other.\<close>

definition net2 :: "RoadNode list" where
  "net2 = [\<lparr>n_x = 0, n_y = 0, connections = [1]\<rparr>, \<lparr>n_x = 10, n_y = 0, connections = [0]\<rparr>]"

text \<open>The parts of \<open>executeFieldWorkWithRoadNetwork\<close>, named for the proofs: the result when
  there is too little to do, the capacity available for the field, and the machine and
  path segments on arrival at the entry point (for a network that is not empty).\<close>

definition idleResult :: "MachineState \<Rightarrow> WorkResult" where
  "idleResult m = \<lparr>pathSegments = [], endPosition = position m, capacityUsed = 0,
                    workTime = 0, wr_workPath = []\<rparr>"

definition availableCapacityOf :: "MachineState \<Rightarrow> FieldWorkState \<Rightarrow> real" where
  "availableCapacityOf m fs = min (currentCapacity m) (max 0 (1.0 - completedPercentage fs))"

definition arrive :: "MachineState \<Rightarrow> FieldWorkState \<Rightarrow> RoadNode list \<Rightarrow> point
    \<Rightarrow> MachineState \<times> PathPoint list" where
  "arrive m fs net base =
     (let workStartPoint = selectOptimalFieldEntryPoint (field fs) base (lastWorkPosition fs);
          travelled = fold travelStep (drop 1 (the (findShortestPath (position m) workStartPoint net)))
                        (m, []);
          m' = (fst travelled)\<lparr>position := snapToGrid workStartPoint\<rparr>
      in (m', snd travelled @ [mkPoint (snapToGrid workStartPoint) (currentTime m') ''field_start'']))"

text \<open>The single-field scenario of the specification, without any machine.\<close>

definition reqNoMachine :: ScheduleRequest where
  "reqNoMachine = \<lparr>machineCount = 0, req_fields = [field1], baseStation = (50, 40),
                   parameters = params1\<rparr>"

text \<open>A request whose single machine has too little capacity to work (0.01) and is
  resupplied once, for 28800 time units; \<open>machineSlow\<close> is that machine afterwards.\<close>

definition paramsSlow :: Parameters where
  "paramsSlow = \<lparr>fieldWidth = 10, fieldHeight = 10, totalFields = 1, machineCapacity = 1 / 100,
                 supplyDuration = 28800\<rparr>"

definition reqSlow :: ScheduleRequest where
  "reqSlow = \<lparr>machineCount = 1, req_fields = [fieldA], baseStation = (- 10, - 10),
              parameters = paramsSlow\<rparr>"

definition machineSlow :: MachineState where
  "machineSlow =
     \<lparr>m_id = 1, currentCapacity = 1 / 100, position = (- 10, - 10), currentTime = 28800,
      path = [mkPoint (- 10, - 10) 0 ''start'', mkPoint (- 10, - 10) 0 ''supply'',
              mkPoint (- 10, - 10) 28800 ''supply_complete''],
      supplyEvents = [\<lparr>se_time = 0, se_duration = 28800\<rparr>], isIdle = True\<rparr>"

text \<open>What holds of the work state of a field in every state of a run.\<close>

definition fieldOk :: "FieldWorkState \<Rightarrow> bool" where
  "fieldOk fs \<longleftrightarrow>
     0 \<le> completedPercentage fs \<and> completedPercentage fs \<le> 1
     \<and> (0.99 \<le> completedPercentage fs \<longrightarrow> isCompleted fs)"

text \<open>The field states that the loop body can produce from given ones: each step is one
  execution of the body, for some machine, on the field that \<open>find\<close> selects.\<close>

inductive fieldsReach :: "SimCtx \<Rightarrow> FieldWorkState list \<Rightarrow> FieldWorkState list \<Rightarrow> bool"
  for ctx :: SimCtx and fss :: "FieldWorkState list" where
  start: "fieldsReach ctx fss fss"
  | turn: "fieldsReach ctx fss fss1 \<Longrightarrow> findIncomplete fss1 = Some k
          \<Longrightarrow> machineTurn ctx m (fss1 ! k) = Some (m', fs')
          \<Longrightarrow> fieldsReach ctx fss (fss1[k := fs'])"

text \<open>From one list of field states to a later one: the same fields, no fraction
  smaller, and the completed fields as they were.\<close>

definition fieldsAdvance :: "FieldWorkState list \<Rightarrow> FieldWorkState list \<Rightarrow> bool" where
  "fieldsAdvance fss fss' \<longleftrightarrow>
     length fss' = length fss
     \<and> (\<forall>k < length fss. completedPercentage (fss ! k) \<le> completedPercentage (fss' ! k)
            \<and> (isCompleted (fss ! k) \<longrightarrow> fss' ! k = fss ! k))"

text \<open>Path points in time order, between two bounds.\<close>

definition segsOk :: "real \<Rightarrow> real \<Rightarrow> PathPoint list \<Rightarrow> bool" where
  "segsOk lo hi segs \<longleftrightarrow>
     sorted (map timestamp segs) \<and> (\<forall>p \<in> set segs. lo \<le> timestamp p \<and> timestamp p \<le> hi)"

text \<open>The path of a machine starts at the base station at time 0, is in time order, and
  has no point later than the machine's current time.\<close>

definition pathOk :: "point \<Rightarrow> MachineState \<Rightarrow> bool" where
  "pathOk base m \<longleftrightarrow>
     path m \<noteq> [] \<and> hd (path m) = mkPoint base 0 ''start''
     \<and> segsOk 0 (currentTime m) (path m)"

text \<open>The node of a list of points that a query point snaps to: the first one at the
  least distance.\<close>

definition nearestPoint :: "point \<Rightarrow> point list \<Rightarrow> point" where
  "nearestPoint p qs =
     fold (\<lambda>q best. if calculateDistance p q < calculateDistance p best then q else best)
       (tl qs) (hd qs)"

text \<open>The nodes of the single-field scenario: the grid from -20 to 120 by -20 to 100 without
  the points strictly inside the field.\<close>

definition nodes1 :: "point list" where
  "nodes1 = concat (map (\<lambda>x. map (Pair x)
               (if 0 < x \<and> x < 100 then [- 20, - 10, 0, 80, 90, 100]
                else [- 20, - 10, 0, 10, 20, 30, 40, 50, 60, 70, 80, 90, 100]))
             [- 20, - 10, 0, 10, 20, 30, 40, 50, 60, 70, 80, 90, 100, 110, 120])"

text \<open>The road network of the single-field scenario.\<close>

definition net1 :: "RoadNode list" where
  "net1 = generateFieldRoadNetwork [field1] (50, 40)"

text \<open>The number of points of a path that carry a given action.\<close>

definition countAction :: "string \<Rightarrow> PathPoint list \<Rightarrow> nat" where
  "countAction a pth = length (filter (\<lambda>p. action p = a) pth)"

text \<open>The single-field scenario with one machine of capacity one half.\<close>

definition reqHalf :: ScheduleRequest where
  "reqHalf = \<lparr>machineCount = 1, req_fields = [field1], baseStation = (50, 40),
              parameters = params1\<rparr>"

section \<open>Properties\<close>

declare gridColumn.simps [simp del] gridNodes.simps [simp del] simLoop.simps [simp del]
  dijkstraLoop.simps [simp del]

subsection \<open>Road network\<close>

lemma coords_connectNodes: "map coords (connectNodes fs nodes) = nodes"
  by (auto simp: connectNodes_def coords_def intro!: nth_equalityI)

lemma length_connectNodes: "length (connectNodes fs nodes) = length nodes"
  by (simp add: connectNodes_def)

lemma set_addNode: "set (addNode p nodes) = insert p (set nodes)"
  by (auto simp: addNode_def)

lemma set_fold_addNode: "set (fold addNode cs nodes) = set cs \<union> set nodes"
  by (induction cs arbitrary: nodes) (auto simp: set_addNode)

lemma set_addCornerNodes:
  "set (addCornerNodes fs nodes) = (\<Union>f \<in> set fs. set (corners f)) \<union> set nodes"
  unfolding addCornerNodes_def
  by (induction fs arbitrary: nodes) (auto simp: set_fold_addNode)

lemma set_gridColumn:
  "p \<in> set (gridColumn fs x y maxY) \<Longrightarrow> \<not> isPointInsideAnyField p fs"
proof (induction fs x y maxY rule: gridColumn.induct)
  case (1 fs x y maxY)
  then show ?case
    by (subst (asm) (2) gridColumn.simps) (auto split: if_splits)
qed

lemma set_gridNodes:
  "p \<in> set (gridNodes fs x maxX minY maxY) \<Longrightarrow> \<not> isPointInsideAnyField p fs"
proof (induction fs x maxX minY maxY rule: gridNodes.induct)
  case (1 fs x maxX minY maxY)
  then show ?case
    by (subst (asm) (2) gridNodes.simps) (auto split: if_splits dest: set_gridColumn)
qed

lemma nodePoints_cases:
  "p \<in> set (nodePoints fs base) \<Longrightarrow>
     \<not> isPointInsideAnyField p fs \<or> (\<exists>f \<in> set fs. p \<in> set (corners f))"
  by (auto simp: nodePoints_def Let_def set_addCornerNodes addBaseNode_def set_addNode
      dest: set_gridNodes split: if_splits)

lemma corner_in_nodePoints:
  "f \<in> set fs \<Longrightarrow> c \<in> set (corners f) \<Longrightarrow> c \<in> set (nodePoints fs base)"
  by (auto simp: nodePoints_def Let_def set_addCornerNodes)

subsection \<open>Shortest path finder\<close>

lemma orInfinity_init: "orInfinity (((\<lambda>_. PosInf)(s := Finite 0)) n) = PosInf"
  by (simp add: orInfinity_def)

lemma selectCurrent_none:
  "\<forall>n \<in> set U. orInfinity (D n) = PosInf \<Longrightarrow> fold (selectStep D) U (None, PosInf) = (None, PosInf)"
  by (induction U) (simp_all add: selectStep_def)

lemma dijkstraLoop_init:
  "dijkstraLoop net e ((\<lambda>_. PosInf)(s := Finite 0)) (\<lambda>_. None) U = (\<lambda>_. None)"
proof -
  have "selectCurrent ((\<lambda>_. PosInf)(s := Finite 0)) U = (None, PosInf)"
    unfolding selectCurrent_def
    by (rule selectCurrent_none) (simp add: orInfinity_def)
  then show ?thesis
    by (subst dijkstraLoop.simps) simp
qed

lemma reconstructPath_init:
  "reconstructPath net (\<lambda>_. None) (Some e) [] = Some [coords (net ! e)]"
  by (simp add: reconstructPath.simps)

lemma nearestNode_Some: "net \<noteq> [] \<Longrightarrow> nearestNode p net = Some (the (nearestNode p net))"
  by (simp add: nearestNode_def)

lemma findShortestPath_eq:
  assumes "net \<noteq> []"
  shows "findShortestPath a b net =
           Some (if snapNode b net = snapNode a net then [snapNode b net]
                 else [snapNode a net, snapNode b net])"
  using assms
  by (auto simp: findShortestPath_def nearestNode_def snapNode_def dijkstraLoop_init
        reconstructPath_init coords_def)

lemma findShortestPath_empty: "findShortestPath a b [] = None"
  by (simp add: findShortestPath_def nearestNode_def)

subsection \<open>Coverage path\<close>

lemma startRow_lt_endRow:
  fixes s w :: real and T :: int
  assumes "0 < w" "s + w \<le> 1" "1 \<le> T"
  shows "\<lfloor>s * of_int T\<rfloor> < min T \<lceil>(s + w) * of_int T\<rceil>"
proof -
  have T: "(0::real) < of_int T" using assms(3) by simp
  have lt: "s * of_int T < (s + w) * of_int T"
    using assms(1) T by (simp add: distrib_right)
  have le: "(s + w) * of_int T \<le> of_int T"
    using assms(2) T by (simp add: mult_le_cancel_right1)
  have a: "\<lfloor>s * of_int T\<rfloor> < T"
    using lt le by (simp add: floor_less_iff)
  have "s * of_int T < of_int \<lceil>(s + w) * of_int T\<rceil>"
    using lt le_of_int_ceiling [of "(s + w) * of_int T"] by linarith
  then have b: "\<lfloor>s * of_int T\<rfloor> < \<lceil>(s + w) * of_int T\<rceil>"
    by (simp add: floor_less_iff)
  from a b show ?thesis by simp
qed

lemma totalRowsOf_pos: "1 \<le> totalRowsOf fld"
  by (simp add: totalRowsOf_def)

text \<open>
  In exact arithmetic: for every field and every start fraction \<open>s \<ge> 0\<close> and work fraction
  \<open>w > 0\<close> with \<open>s + w \<le> 1\<close>, the coverage path is not empty and its first point lies on
  the row of index \<open>floor (s * totalRows)\<close>: its \<open>y\<close> is
  \<open>field.y + floor (s * totalRows) * field.height / totalRows\<close>, where
  \<open>totalRows = max 1 (floor (height / 5))\<close>.
\<close>

lemma coverage_path_first_row:
  assumes "0 \<le> s" "0 < w" "s + w \<le> 1"
  shows "generateContinuousFieldWorkPath fld s w \<noteq> []
         \<and> snd (hd (generateContinuousFieldWorkPath fld s w))
             = f_y fld + (of_int \<lfloor>s * of_int (totalRowsOf fld)\<rfloor> * f_height fld)
                          / of_int (totalRowsOf fld)"
proof -
  let ?T = "totalRowsOf fld"
  let ?a = "\<lfloor>s * of_int ?T\<rfloor>"
  let ?b = "min ?T \<lceil>(s + w) * of_int ?T\<rceil>"
  have "?a < ?b"
    using assms(2,3) totalRowsOf_pos by (rule startRow_lt_endRow)
  then have "[?a..?b - 1] = ?a # [?a + 1..?b - 1]"
    by (simp add: upto_rec1)
  then have "generateContinuousFieldWorkPath fld s w
        = coverageRow fld s ?T ?a ?a @ concat (map (coverageRow fld s ?T ?a) [?a + 1..?b - 1])"
    by (simp add: generateContinuousFieldWorkPath_def Let_def)
  then show ?thesis
    by (simp add: coverageRow_def Let_def)
qed

lemma totalRowsOf_field1: "totalRowsOf field1 = 16"
  by (simp add: totalRowsOf_def field1_def)

text \<open>The lemma at the 100 by 80 field, resuming at one half and working one quarter: the
  first point is on row 8, at \<open>y = 40\<close>.\<close>

lemma coverage_path_first_row_instance:
  "(0::real) \<le> 1 / 2 \<and> (0::real) < 1 / 4 \<and> (1::real) / 2 + 1 / 4 \<le> 1
   \<and> generateContinuousFieldWorkPath field1 (1 / 2) (1 / 4) \<noteq> []
   \<and> snd (hd (generateContinuousFieldWorkPath field1 (1 / 2) (1 / 4))) = 40"
  using coverage_path_first_row [of "1 / 2" "1 / 4" field1]
  by (simp add: totalRowsOf_field1) (simp add: field1_def)

text \<open>The path is empty for a work fraction of zero: with \<open>s = 0\<close> and \<open>w = 0\<close> the start
  row and the end row are both 0 and the path is empty.\<close>

lemma coverage_path_empty:
  "generateContinuousFieldWorkPath field1 0 0 = []"
  by (simp add: generateContinuousFieldWorkPath_def totalRowsOf_field1)

subsection \<open>Empty field list\<close>

text \<open>
  Claim C9. For every request whose field list is empty the scheduler returns a result,
  and it is the zero-valued one: no machines, total time 0, efficiency 0, no supply
  events, an empty road network, and the base station rounded componentwise.
\<close>

theorem empty_fields_result:
  assumes "req_fields req = []"
  shows "generateScheduleWithRoadNetwork req
         = Some \<lparr>machines = [], totalTime = Finite 0, efficiency = Finite 0,
                  totalSupplyEvents = 0,
                  res_baseStation = (js_round (fst (baseStation req)), js_round (snd (baseStation req))),
                  res_roadNetwork = []\<rparr>"
  using assms by (simp add: generateScheduleWithRoadNetwork_def snapToGrid_def)

text \<open>The theorem at a request with three machines, no field and the base station at
  \<open>(2.5, 7.2)\<close>, which is rounded to \<open>(3, 7)\<close>.\<close>

theorem empty_fields_result_witness:
  "req_fields \<lparr>machineCount = 3, req_fields = [], baseStation = (5 / 2, 36 / 5), parameters = params1\<rparr> = []
   \<and> generateScheduleWithRoadNetwork
        \<lparr>machineCount = 3, req_fields = [], baseStation = (5 / 2, 36 / 5), parameters = params1\<rparr>
      = Some \<lparr>machines = [], totalTime = Finite 0, efficiency = Finite 0,
               totalSupplyEvents = 0, res_baseStation = (3, 7), res_roadNetwork = []\<rparr>"
  using empty_fields_result
          [of "\<lparr>machineCount = 3, req_fields = [], baseStation = (5 / 2, 36 / 5), parameters = params1\<rparr>"]
  by (simp add: js_round_def)

subsection \<open>Nodes of the road network and field interiors\<close>

text \<open>
  Claim C2 at two overlapping fields. The grid points and the base station are tested
  against the fields before they become nodes (\<open>nodePoints_cases\<close>); the corners are not.
  With the fields \<open>[0, 10] \<times> [0, 10]\<close> and \<open>[5, 15] \<times> [5, 15]\<close> the corner \<open>(5, 5)\<close> of the
  second field is a node of the network and lies strictly inside the first field.
\<close>

theorem corner_node_inside_field:
  "(5, 5) \<in> set (map coords (generateFieldRoadNetwork [fieldA, fieldB] (- 10, - 10)))
   \<and> isPointInsideAnyField (5, 5) [fieldA, fieldB]"
proof -
  have "(5, 5) \<in> set (corners fieldB)"
    by (simp add: corners_def fieldB_def)
  then have "(5, 5) \<in> set (nodePoints [fieldA, fieldB] (- 10, - 10))"
    by (intro corner_in_nodePoints [of fieldB]) simp_all
  moreover have "isPointInsideAnyField (5, 5) [fieldA, fieldB]"
    by (simp add: isPointInsideAnyField_def insideField_def fieldA_def)
  ultimately show ?thesis
    by (simp add: generateFieldRoadNetwork_def coords_connectNodes)
qed

subsection \<open>Length of the path found\<close>

text \<open>
  Claim C5, as amended. For every pair of query points and every non-empty road network
  the path finder returns a non-empty path that ends at the node the end point snaps to.
  When the two query points snap to nodes with the same coordinates the path is that
  single point; otherwise it has at least two points and starts at the node the start
  point snaps to.
\<close>

theorem findShortestPath_nonempty:
  assumes "net \<noteq> []"
  shows "\<exists>pth. findShortestPath a b net = Some pth \<and> pth \<noteq> [] \<and> last pth = snapNode b net
           \<and> (if snapNode a net = snapNode b net then pth = [snapNode b net]
              else 2 \<le> length pth \<and> hd pth = snapNode a net)"
  using assms by (auto simp: findShortestPath_eq)

lemma snapNode_net2: "snapNode (1, 1) net2 = (0, 0)" "snapNode (9, 0) net2 = (10, 0)"
  "snapNode (0, 0) net2 = (0, 0)"
  by (simp_all add: snapNode_def nearestNode_def coords_def calculateDistance_def net2_def)

text \<open>The theorem on a network of two connected nodes, from \<open>(1, 1)\<close> to \<open>(9, 0)\<close>.\<close>

theorem findShortestPath_nonempty_witness:
  "net2 \<noteq> [] \<and> (\<exists>pth. findShortestPath (1, 1) (9, 0) net2 = Some pth \<and> pth \<noteq> []
      \<and> last pth = (10, 0) \<and> 2 \<le> length pth \<and> hd pth = (0, 0))"
  using findShortestPath_nonempty [of net2 "(1, 1)" "(9, 0)"]
  by (simp add: snapNode_net2) (simp add: net2_def)

text \<open>Claim C5 as stated fails when start and end coincide: on the same network the path
  from \<open>(0, 0)\<close> to \<open>(0, 0)\<close> has one point.\<close>

theorem findShortestPath_single_point_counterexample:
  "map_option length (findShortestPath (0, 0) (0, 0) net2) = Some 1"
proof -
  have "net2 \<noteq> []"
    by (simp add: net2_def)
  then show ?thesis
    by (simp add: findShortestPath_eq snapNode_net2)
qed

subsection \<open>The scheduler returns\<close>

lemma nodePoints_nonempty: "nodePoints fs base \<noteq> []"
proof (cases fs)
  case Nil
  then have "base \<in> set (nodePoints fs base)"
    by (simp add: nodePoints_def Let_def addCornerNodes_def addBaseNode_def
        isPointInsideAnyField_def set_addNode)
  then show ?thesis by auto
next
  case (Cons f fs')
  then have f: "f \<in> set fs" by simp
  have "(f_x f, f_y f) \<in> set (corners f)" by (simp add: corners_def)
  from corner_in_nodePoints [OF f this, of base] show ?thesis by auto
qed

lemma network_nonempty: "generateFieldRoadNetwork fs base \<noteq> []"
  using nodePoints_nonempty [of fs base] length_connectNodes [of fs "nodePoints fs base"]
  by (auto simp: generateFieldRoadNetwork_def simp del: length_connectNodes)

lemma base_in_network:
  "\<not> isPointInsideAnyField base fs \<Longrightarrow> base \<in> set (map coords (generateFieldRoadNetwork fs base))"
  by (simp add: generateFieldRoadNetwork_def coords_connectNodes nodePoints_def Let_def
      set_addCornerNodes addBaseNode_def set_addNode)

lemma findShortestPath_total: "net \<noteq> [] \<Longrightarrow> \<exists>pth. findShortestPath a b net = Some pth"
  by (simp add: findShortestPath_eq)

lemma workLoop_total:
  "net \<noteq> [] \<Longrightarrow> \<exists>r'. workLoop m base net cpp tpp ps r = Some r'"
proof (induction ps arbitrary: r)
  case Nil
  then show ?case by simp
next
  case (Cons p ps)
  then show ?case
    by (simp add: Let_def findShortestPath_eq)
qed

lemma findShortestPath_case:
  "net \<noteq> [] \<Longrightarrow>
     (case findShortestPath a b net of None \<Rightarrow> None | Some p \<Rightarrow> F p) = F (the (findShortestPath a b net))"
  by (simp add: findShortestPath_eq)

lemma option_case_Pair:
  "(case w of None \<Rightarrow> None | Some r \<Rightarrow> Some (m', r)) = map_option (Pair m') w"
  by (cases w) simp_all

lemma executeFieldWork_unfold:
  assumes "net \<noteq> []"
  shows "executeFieldWorkWithRoadNetwork m fs cap net base =
     (if availableCapacityOf m fs \<le> 0.05 then Some (m, idleResult m)
      else let m' = fst (arrive m fs net base);
               segs = snd (arrive m fs net base);
               gridStartPoint = snapToGrid (selectOptimalFieldEntryPoint (field fs) base (lastWorkPosition fs));
               pts = generateContinuousFieldWorkPath (field fs) (completedPercentage fs)
                       (availableCapacityOf m fs)
           in if pts = [] then Some (m', \<lparr>pathSegments = segs, endPosition = gridStartPoint,
                                            capacityUsed = 0, workTime = 0, wr_workPath = []\<rparr>)
              else map_option (Pair m')
                     (workLoop m' base net (availableCapacityOf m fs / real (length pts))
                        ((availableCapacityOf m fs * 180) / real (length pts)) pts
                        \<lparr>pathSegments = segs, endPosition = gridStartPoint,
                         capacityUsed = 0, workTime = 0, wr_workPath = []\<rparr>))"
  unfolding executeFieldWorkWithRoadNetwork_def availableCapacityOf_def idleResult_def arrive_def
    Let_def
  by (simp only: findShortestPath_case [OF assms] option_case_Pair fst_conv snd_conv)

lemma executeFieldWork_total:
  assumes "net \<noteq> []"
  shows "\<exists>m' r. executeFieldWorkWithRoadNetwork m fs cap net base = Some (m', r)"
proof -
  have "\<And>m' cpp tpp ps r. \<exists>r'. workLoop m' base net cpp tpp ps r = Some r'"
    using workLoop_total [OF assms] by blast
  then show ?thesis
    unfolding executeFieldWork_unfold [OF assms] Let_def
    by (metis (no_types, lifting) option.simps(9))
qed

lemma resupply_total: "roadNetwork ctx \<noteq> [] \<Longrightarrow> \<exists>m'. resupply ctx m = Some m'"
  by (simp add: resupply_def findShortestPath_eq Let_def)

lemma machineTurn_total:
  assumes "roadNetwork ctx \<noteq> []"
  shows "\<exists>m' fs'. machineTurn ctx m fs = Some (m', fs')"
proof -
  have "\<exists>m1. (if currentCapacity m < 0.1 then resupply ctx m else Some m) = Some m1"
    using resupply_total [OF assms, of m] by (cases "currentCapacity m < 0.1") simp_all
  then obtain m1 where m1: "(if currentCapacity m < 0.1 then resupply ctx m else Some m) = Some m1"
    by blast
  obtain m2 r where "executeFieldWorkWithRoadNetwork m1 fs (ctx_machineCapacity ctx)
      (roadNetwork ctx) (gridBaseStation ctx) = Some (m2, r)"
    using executeFieldWork_total [OF assms] by blast
  with m1 show ?thesis
    unfolding machineTurn_def Let_def by simp
qed

lemma forMachines_total:
  assumes "roadNetwork ctx \<noteq> []"
  shows "\<exists>ms' fss'. forMachines ctx t ms fss = Some (ms', fss')"
proof (induction ms arbitrary: fss)
  case Nil
  then show ?case by simp
next
  case (Cons m ms)
  show ?case
  proof (cases "currentTime m > t")
    case True
    with Cons.IH [of fss] show ?thesis by auto
  next
    case False
    show ?thesis
    proof (cases "findIncomplete fss")
      case None
      with False show ?thesis by simp
    next
      case (Some k)
      obtain m' fs' where "machineTurn ctx m (fss ! k) = Some (m', fs')"
        using machineTurn_total [OF assms] by blast
      with False Some Cons.IH [of "fss[k := fs']"] show ?thesis by auto
    qed
  qed
qed

lemma simLoop_total:
  assumes "roadNetwork ctx \<noteq> []"
  shows "\<exists>ms' fss' n'. simLoop ctx t n ms fss = Some (ms', fss', n')
           \<and> n' \<le> n + nat \<lceil>(maxTime - t) / 60\<rceil>"
  using assms
proof (induction ctx t n ms fss rule: simLoop.induct)
  case (1 ctx t n ms fss)
  show ?case
  proof (cases "t < maxTime \<and> list_ex (\<lambda>fs. \<not> isCompleted fs) fss")
    case True
    obtain ms1 fss1 where f: "forMachines ctx t ms fss = Some (ms1, fss1)"
      using forMachines_total [OF "1.prems"] by blast
    from "1.IH" [OF True f refl "1.prems"]
    obtain ms' fss' n' where s: "simLoop ctx (t + 60) (Suc n) ms1 fss1 = Some (ms', fss', n')"
      and n: "n' \<le> Suc n + nat \<lceil>(maxTime - (t + 60)) / 60\<rceil>"
      by blast
    from True have "t < maxTime" by simp
    from tick_measure [OF this] n have "n' \<le> n + nat \<lceil>(maxTime - t) / 60\<rceil>"
      by linarith
    with s f True show ?thesis
      by (subst simLoop.simps) simp
  next
    case False
    then show ?thesis
      by (subst simLoop.simps) auto
  qed
qed

lemma returnToBase_total: "roadNetwork ctx \<noteq> [] \<Longrightarrow> \<exists>m'. returnToBase ctx m = Some m'"
  by (simp add: returnToBase_def findShortestPath_eq Let_def)

lemma those_total: "\<forall>x \<in> set xs. \<exists>y. f x = Some y \<Longrightarrow> \<exists>ys. those (map f xs) = Some ys"
  by (induction xs) auto

lemma simCtx_network: "roadNetwork (simCtx req) \<noteq> []"
  by (simp add: simCtx_def network_nonempty)

lemma simulate_total: "\<exists>ms fss n. simulate req = Some (ms, fss, n) \<and> n \<le> 480"
proof -
  obtain ms fss n where s: "simLoop (simCtx req) 0 0
             (map (initMachine (snapToGrid (baseStation req)) (machineCapacity (parameters req)))
                [0..<machineCount req])
             (map initFieldState (req_fields req)) = Some (ms, fss, n)"
    and n: "n \<le> 0 + nat \<lceil>(maxTime - 0) / 60\<rceil>"
    using simLoop_total [OF simCtx_network] by blast
  obtain ms' where "those (map (returnToBase (simCtx req)) ms) = Some ms'"
    using those_total [of ms "returnToBase (simCtx req)"] returnToBase_total [OF simCtx_network]
    by blast
  with s n show ?thesis
    by (simp add: simulate_def maxTime_def)
qed

text \<open>
  In exact arithmetic: for every request the scheduling computation returns a result, and the outer
  simulation loop, which advances the time by 60 from 0 while it is below \<open>3600 * 8\<close>,
  executes at most 480 iterations. No assumption on the request is needed: the road
  network is never empty, so every path search returns, and the tick bound does not
  depend on what the machines do.
\<close>

lemma schedule_terminates:
  "(\<exists>r. generateScheduleWithRoadNetwork req = Some r)
   \<and> (\<exists>ms fss n. simulate req = Some (ms, fss, n) \<and> n \<le> 480)"
  using simulate_total [of req]
  by (auto simp: generateScheduleWithRoadNetwork_def)

subsection \<open>Efficiency score\<close>

lemma js_mul_NaN: "js_mul a NaN = NaN"
  by (cases a) simp_all

lemma fold_js_add_Finite:
  "fold (\<lambda>m sum. js_add sum (Finite (f m))) ms (Finite a) = Finite (a + sum_list (map f ms))"
  by (induction ms arbitrary: a) (simp_all add: add.assoc)

lemma calculateEfficiency_no_machines: "calculateEfficiency [] fss = NaN"
  by (simp add: calculateEfficiency_def Let_def js_div_def js_sub_def js_mul_NaN)

lemma calculateEfficiency_machines:
  assumes "ms \<noteq> []" "fss \<noteq> []"
  shows "\<exists>b. calculateEfficiency ms fss
           = Finite (real (length (filter isCompleted fss)) / real (length fss) * b)
         \<and> 1 / 2 \<le> b \<and> b \<le> 1"
proof -
  let ?n = "real (length ms)"
  let ?avg = "sum_list (map currentTime ms) / ?n"
  let ?var = "sum_list (map (\<lambda>m. (currentTime m - ?avg) * (currentTime m - ?avg)) ms) / ?n"
  let ?b = "max (1 / 2) (1 - ?var / (?avg * ?avg + 1))"
  have n: "?n \<noteq> 0" "0 < ?n" using assms(1) by simp_all
  have t: "real (length fss) \<noteq> 0" using assms(2) by simp
  have avg: "js_divide (fold (\<lambda>m sum. js_add sum (Finite (currentTime m))) ms (Finite 0)) (Finite ?n)
      = Finite ?avg"
    using n by (simp add: fold_js_add_Finite js_div_def)
  have var: "js_divide (fold (\<lambda>m sum. js_add sum
                       (js_mul (js_sub (Finite (currentTime m)) (Finite ?avg))
                               (js_sub (Finite (currentTime m)) (Finite ?avg)))) ms (Finite 0))
              (Finite ?n) = Finite ?var"
    using n fold_js_add_Finite [of "\<lambda>m. (currentTime m - ?avg) * (currentTime m - ?avg)" ms 0]
    by (simp add: js_sub_def js_div_def)
  have d: "?avg * ?avg + 1 \<noteq> 0"
    by (metis add_nonneg_eq_0_iff zero_le_square zero_neq_one zero_le_one)
  have eq: "calculateEfficiency ms fss
      = Finite (real (length (filter isCompleted fss)) / real (length fss) * ?b)"
    unfolding calculateEfficiency_def Let_def avg var
    using t d by (simp add: js_div_def js_sub_def)
  have "0 \<le> sum_list (map (\<lambda>m. (currentTime m - ?avg) * (currentTime m - ?avg)) ms)"
    by (rule sum_list_nonneg) auto
  then have "0 \<le> ?var" using n by simp
  moreover have "0 < ?avg * ?avg + 1"
    by (metis add_nonneg_pos zero_le_square zero_less_one)
  ultimately have "0 \<le> ?var / (?avg * ?avg + 1)" by (rule divide_nonneg_pos)
  then have "1 / 2 \<le> ?b \<and> ?b \<le> 1" by simp
  with eq show ?thesis by blast
qed

text \<open>With at least one machine the score is as the specification says: within \<open>[0.5, 1]\<close>
  when every field is completed, and 0 when none is.\<close>

lemma efficiency_all_completed:
  assumes "ms \<noteq> []" "fss \<noteq> []" "list_all isCompleted fss"
  shows "\<exists>e. calculateEfficiency ms fss = Finite e \<and> 1 / 2 \<le> e \<and> e \<le> 1"
proof -
  from assms(3) have "filter isCompleted fss = fss"
    by (simp add: list_all_iff)
  with calculateEfficiency_machines [OF assms(1,2)] assms(2) show ?thesis
    by auto
qed

lemma efficiency_none_completed:
  assumes "ms \<noteq> []" "fss \<noteq> []" "filter isCompleted fss = []"
  shows "calculateEfficiency ms fss = Finite 0"
  using calculateEfficiency_machines [OF assms(1,2)] assms(3) by auto

lemma simLoop_no_machines_aux:
  "ms = [] \<Longrightarrow> \<exists>n'. simLoop ctx t n ms fss = Some ([], fss, n')"
proof (induction ctx t n ms fss rule: simLoop.induct)
  case (1 ctx t n ms fss)
  show ?case
  proof (cases "t < maxTime \<and> list_ex (\<lambda>fs. \<not> isCompleted fs) fss")
    case True
    have f: "forMachines ctx t ms fss = Some ([], fss)"
      using "1.prems" by simp
    from "1.IH" [OF True f refl refl] True f show ?thesis
      by (subst simLoop.simps) simp
  next
    case False
    with "1.prems" show ?thesis
      by (subst simLoop.simps) auto
  qed
qed

lemma simLoop_no_machines: "\<exists>n'. simLoop ctx t n [] fss = Some ([], fss, n')"
  by (rule simLoop_no_machines_aux) simp

lemma simulate_no_machines:
  "machineCount req = 0 \<Longrightarrow> \<exists>n. simulate req = Some ([], map initFieldState (req_fields req), n)"
  using simLoop_no_machines [of "simCtx req" 0 0 "map initFieldState (req_fields req)"]
  by (auto simp: simulate_def)

lemma efficiency_no_machines:
  assumes "machineCount req = 0" "req_fields req \<noteq> []"
  shows "map_option efficiency (generateScheduleWithRoadNetwork req) = Some NaN"
  using simulate_no_machines [OF assms(1)] assms(2)
  by (auto simp: generateScheduleWithRoadNetwork_def calculateEfficiency_no_machines)

text \<open>
  Claim C4 at a request with no machine. The completion rate is 0 (no field can be
  completed), but the average time is \<open>0 / 0\<close>, so the balance score and with it the
  efficiency are \<open>NaN\<close>, not 0.
\<close>

theorem efficiency_zero_machines:
  "map_option efficiency (generateScheduleWithRoadNetwork reqNoMachine) = Some NaN"
  by (rule efficiency_no_machines) (simp_all add: reqNoMachine_def)

subsection \<open>Total time\<close>

lemma nearest_fold_min:
  fixes d :: "nat \<Rightarrow> real"
  shows "d (fold (\<lambda>k closest. if d k < d closest then k else closest) ks c) \<le> d c
     \<and> (\<forall>k \<in> set ks. d (fold (\<lambda>k closest. if d k < d closest then k else closest) ks c) \<le> d k)"
proof (induction ks arbitrary: c)
  case Nil
  then show ?case by simp
next
  case (Cons a ks)
  show ?case
  proof (cases "d a < d c")
    case True
    with Cons.IH [of a] show ?thesis by auto
  next
    case False
    with Cons.IH [of c] show ?thesis by auto
  qed
qed

lemma nearestNode_min:
  assumes "k < length net"
  shows "calculateDistance p (coords (net ! the (nearestNode p net))) \<le> calculateDistance p (coords (net ! k))"
proof -
  from assms have ne: "net \<noteq> []" by auto
  let ?d = "\<lambda>k. calculateDistance p (coords (net ! k))"
  have "k = 0 \<or> k \<in> set [1..<length net]" using assms by auto
  with nearest_fold_min [of ?d "[1..<length net]" 0] show ?thesis
    using ne by (auto simp: nearestNode_def)
qed

lemma calculateDistance_zero: "calculateDistance p q = 0 \<longleftrightarrow> p = q"
  by (cases p, cases q) (auto simp: calculateDistance_def sum_power2_eq_zero_iff)

lemma calculateDistance_nonneg: "0 \<le> calculateDistance p q"
  by (simp add: calculateDistance_def)

lemma snapNode_exact:
  assumes "p \<in> set (map coords net)"
  shows "snapNode p net = p"
proof -
  from assms obtain k where k: "k < length net" "coords (net ! k) = p"
    by (auto simp: in_set_conv_nth)
  from nearestNode_min [OF k(1), of p] k(2)
  have "calculateDistance p (snapNode p net) \<le> 0"
    by (simp add: snapNode_def calculateDistance_zero [THEN iffD2])
  with calculateDistance_nonneg [of p "snapNode p net"]
  have "calculateDistance p (snapNode p net) = 0" by linarith
  then show ?thesis by (simp add: calculateDistance_zero)
qed

lemma forMachines_busy:
  "\<forall>m \<in> set ms. t < currentTime m \<Longrightarrow> forMachines ctx t ms fss = Some (ms, fss)"
  by (induction ms) simp_all

lemma simLoop_busy:
  "\<forall>m \<in> set ms. maxTime \<le> currentTime m \<Longrightarrow> \<exists>n'. simLoop ctx t n ms fss = Some (ms, fss, n')"
proof (induction ctx t n ms fss rule: simLoop.induct)
  case (1 ctx t n ms fss)
  show ?case
  proof (cases "t < maxTime \<and> list_ex (\<lambda>fs. \<not> isCompleted fs) fss")
    case True
    with "1.prems" have "\<forall>m \<in> set ms. t < currentTime m" by fastforce
    then have f: "forMachines ctx t ms fss = Some (ms, fss)"
      by (rule forMachines_busy)
    from "1.IH" [OF True f refl "1.prems"] True f show ?thesis
      by (subst simLoop.simps) simp
  next
    case False
    then show ?thesis
      by (subst simLoop.simps) auto
  qed
qed

lemma fold_js_max_Finite:
  "fold js_max (map Finite xs) (Finite a) = Finite (fold max xs a)"
  by (induction xs arbitrary: a) (simp_all add: max.commute)

text \<open>With at least one machine the total time is the largest machine time divided by 60.\<close>

lemma totalTime_minutes:
  assumes "req_fields req \<noteq> []" "simulate req = Some (m # ms, fss, n)"
  shows "map_option totalTime (generateScheduleWithRoadNetwork req)
           = Some (Finite (fold max (map currentTime ms) (currentTime m) / 60))"
  using assms
  by (simp add: generateScheduleWithRoadNetwork_def fold_js_max_Finite [of "map currentTime ms", simplified map_map comp_def] js_div_def)

lemma snap_base_slow: "snapToGrid (- 10, - 10) = (- 10, - 10)"
  by (simp add: snapToGrid_def js_round_def)

lemma ctx_slow:
  "gridBaseStation (simCtx reqSlow) = (- 10, - 10)"
  "ctx_machineCapacity (simCtx reqSlow) = 1 / 100"
  "ctx_supplyDuration (simCtx reqSlow) = 28800"
  "roadNetwork (simCtx reqSlow) = generateFieldRoadNetwork [fieldA] (- 10, - 10)"
  by (simp_all add: simCtx_def reqSlow_def paramsSlow_def snap_base_slow)

lemma path_base_slow:
  "findShortestPath (- 10, - 10) (- 10, - 10) (generateFieldRoadNetwork [fieldA] (- 10, - 10))
     = Some [(- 10, - 10)]"
proof -
  have "\<not> isPointInsideAnyField (- 10, - 10) [fieldA]"
    by (simp add: isPointInsideAnyField_def insideField_def fieldA_def)
  then have "snapNode (- 10, - 10) (generateFieldRoadNetwork [fieldA] (- 10, - 10)) = (- 10, - 10)"
    by (intro snapNode_exact base_in_network)
  then show ?thesis
    by (simp add: findShortestPath_eq network_nonempty)
qed

lemma turn_slow:
  "machineTurn (simCtx reqSlow) (initMachine (- 10, - 10) (1 / 100) 0) (initFieldState fieldA)
     = Some (machineSlow, (initFieldState fieldA)\<lparr>lastWorkPosition := Some (- 10, - 10)\<rparr>)"
  by (simp add: machineTurn_def resupply_def ctx_slow path_base_slow initMachine_def Let_def
      executeFieldWorkWithRoadNetwork_def initFieldState_def machineSlow_def)

lemma simulate_slow: "\<exists>fss n. simulate reqSlow = Some ([machineSlow], fss, n)"
proof -
  let ?fs = "(initFieldState fieldA)\<lparr>lastWorkPosition := Some (- 10, - 10)\<rparr>"
  have f: "forMachines (simCtx reqSlow) 0 [initMachine (- 10, - 10) (1 / 100) 0] [initFieldState fieldA]
      = Some ([machineSlow], [?fs])"
    using turn_slow by (simp add: initMachine_def initFieldState_def)
  obtain n where l: "simLoop (simCtx reqSlow) (0 + 60) (Suc 0) [machineSlow] [?fs]
      = Some ([machineSlow], [?fs], n)"
    using simLoop_busy [of "[machineSlow]" "simCtx reqSlow" "0 + 60" "Suc 0" "[?fs]"]
    by (auto simp: machineSlow_def maxTime_def)
  have "simLoop (simCtx reqSlow) 0 0 [initMachine (- 10, - 10) (1 / 100) 0] [initFieldState fieldA]
      = Some ([machineSlow], [?fs], n)"
    using f l by (subst simLoop.simps) (simp add: maxTime_def initFieldState_def)
  moreover have "returnToBase (simCtx reqSlow) machineSlow = Some machineSlow"
    by (simp add: returnToBase_def ctx_slow machineSlow_def)
  ultimately show ?thesis
    by (simp add: simulate_def reqSlow_def paramsSlow_def snap_base_slow)
qed

text \<open>
  Claim C1 at a request with one field and one machine. The machine is resupplied at the
  first tick, at the base station where it stands, for 28800 time units, and is busy for
  the rest of the simulation, so its final time is 28800. The total time returned is
  \<open>28800 / 60 = 480\<close>, not \<open>28800 / 3600 = 8\<close>.
\<close>

theorem totalTime_in_minutes:
  "map_option totalTime (generateScheduleWithRoadNetwork reqSlow) = Some (Finite 480)"
proof -
  obtain fss n where "simulate reqSlow = Some ([machineSlow], fss, n)"
    using simulate_slow by blast
  then show ?thesis
    using totalTime_minutes [of reqSlow machineSlow "[]" fss n]
    by (simp add: reqSlow_def machineSlow_def)
qed

subsection \<open>Progress of the fields\<close>

lemma workLoop_capacity:
  assumes "0 \<le> cpp" "workLoop m base net cpp tpp ps r = Some r'"
  shows "capacityUsed r \<le> capacityUsed r' \<and> capacityUsed r' \<le> capacityUsed r + cpp * real (length ps)"
  using assms
proof (induction ps arbitrary: r)
  case Nil
  then show ?case by simp
next
  case (Cons p ps)
  show ?case
  proof (cases "currentCapacity m - (capacityUsed r + cpp) < 0.05")
    case True
    have "0 \<le> cpp * real (length ps)" using Cons.prems(1) by simp
    with True Cons.prems show ?thesis
      by (auto simp: Let_def distrib_left split: option.splits)
  next
    case False
    let ?r1 = "\<lparr>pathSegments = pathSegments r
                    @ [mkPoint (snapToGrid p) (currentTime m + (workTime r + tpp)) ''working''],
                 endPosition = snapToGrid p, capacityUsed = capacityUsed r + cpp,
                 workTime = workTime r + tpp,
                 wr_workPath = wr_workPath r @ [snapToGrid p]\<rparr>"
    from False Cons.prems(2) have "workLoop m base net cpp tpp ps ?r1 = Some r'"
      by (simp add: Let_def)
    from Cons.IH [OF Cons.prems(1) this] Cons.prems(1) show ?thesis
      by (simp add: distrib_left)
  qed
qed

lemma executeFieldWork_empty_net:
  "executeFieldWorkWithRoadNetwork m fs cap [] base =
     (if availableCapacityOf m fs \<le> 0.05 then Some (m, idleResult m) else None)"
  unfolding executeFieldWorkWithRoadNetwork_def availableCapacityOf_def idleResult_def Let_def
    findShortestPath_empty
  by (simp only: option.case)

lemma executeFieldWork_capacity:
  assumes "executeFieldWorkWithRoadNetwork m fs cap net base = Some (m', wr)"
  shows "0 \<le> capacityUsed wr \<and> capacityUsed wr \<le> max 0 (1 - completedPercentage fs)"
proof (cases "availableCapacityOf m fs \<le> 0.05")
  case True
  with assms have "wr = idleResult m"
    by (cases "net = []") (auto simp: executeFieldWork_empty_net executeFieldWork_unfold)
  then show ?thesis by (simp add: idleResult_def)
next
  case False
  with assms have net: "net \<noteq> []"
    by (auto simp: executeFieldWork_empty_net)
  let ?a = "availableCapacityOf m fs"
  let ?pts = "generateContinuousFieldWorkPath (field fs) (completedPercentage fs) ?a"
  have "(0::real) < 0.05"
    by simp
  with False have a1: "0 \<le> ?a"
    by linarith
  have a2: "?a \<le> max 0 (1 - completedPercentage fs)"
    unfolding availableCapacityOf_def by simp
  note a = a1 a2
  show ?thesis
  proof (cases "?pts = []")
    case True
    with assms False show ?thesis
      by (auto simp: executeFieldWork_unfold [OF net] Let_def)
  next
    case ne: False
    let ?r0 = "\<lparr>pathSegments = snd (arrive m fs net base),
                 endPosition = snapToGrid (selectOptimalFieldEntryPoint (field fs) base (lastWorkPosition fs)),
                 capacityUsed = 0, workTime = 0, wr_workPath = []\<rparr>"
    from assms False ne
    have w: "workLoop (fst (arrive m fs net base)) base net (?a / real (length ?pts))
               ((?a * 180) / real (length ?pts)) ?pts ?r0 = Some wr"
      by (auto simp: executeFieldWork_unfold [OF net] Let_def)
    have "0 \<le> ?a / real (length ?pts)" using a(1) by simp
    from workLoop_capacity [OF this w] ne a show ?thesis by simp
  qed
qed

lemma machineTurn_unfold:
  assumes "machineTurn ctx m fs = Some (m', fs')"
  obtains m1 m2 wr where
    "(if currentCapacity m < 0.1 then resupply ctx m else Some m) = Some m1"
    "executeFieldWorkWithRoadNetwork m1 fs (ctx_machineCapacity ctx) (roadNetwork ctx)
        (gridBaseStation ctx) = Some (m2, wr)"
    "m' = m2\<lparr>currentCapacity := currentCapacity m2 - capacityUsed wr,
              currentTime := currentTime m2 + workTime wr,
              position := endPosition wr,
              path := path m2 @ pathSegments wr\<rparr>"
    "fs' = (if completedPercentage fs + capacityUsed wr \<ge> 0.99
            then fs\<lparr>completedPercentage := completedPercentage fs + capacityUsed wr,
                    lastWorkPosition := Some (endPosition wr),
                    workPath := workPath fs @ wr_workPath wr, isCompleted := True\<rparr>
            else fs\<lparr>completedPercentage := completedPercentage fs + capacityUsed wr,
                    lastWorkPosition := Some (endPosition wr),
                    workPath := workPath fs @ wr_workPath wr\<rparr>)"
proof -
  from assms obtain m1 where
    m1: "(if currentCapacity m < 0.1 then resupply ctx m else Some m) = Some m1"
    unfolding machineTurn_def by (cases "if currentCapacity m < 0.1 then resupply ctx m else Some m") auto
  from assms m1 obtain m2 wr where
    e: "executeFieldWorkWithRoadNetwork m1 fs (ctx_machineCapacity ctx) (roadNetwork ctx)
        (gridBaseStation ctx) = Some (m2, wr)"
    unfolding machineTurn_def
    by (cases "executeFieldWorkWithRoadNetwork m1 fs (ctx_machineCapacity ctx) (roadNetwork ctx)
        (gridBaseStation ctx)") auto
  from assms m1 e show ?thesis
    unfolding machineTurn_def Let_def
    by (intro that [OF m1 e]) (auto split: if_splits)
qed

lemma machineTurn_field:
  assumes "fieldOk fs" "machineTurn ctx m fs = Some (m', fs')"
  shows "fieldOk fs' \<and> completedPercentage fs \<le> completedPercentage fs'"
proof -
  from assms(2) obtain m1 m2 wr where
    e: "executeFieldWorkWithRoadNetwork m1 fs (ctx_machineCapacity ctx) (roadNetwork ctx)
        (gridBaseStation ctx) = Some (m2, wr)"
    and fs': "fs' = (if completedPercentage fs + capacityUsed wr \<ge> 0.99
            then fs\<lparr>completedPercentage := completedPercentage fs + capacityUsed wr,
                    lastWorkPosition := Some (endPosition wr),
                    workPath := workPath fs @ wr_workPath wr, isCompleted := True\<rparr>
            else fs\<lparr>completedPercentage := completedPercentage fs + capacityUsed wr,
                    lastWorkPosition := Some (endPosition wr),
                    workPath := workPath fs @ wr_workPath wr\<rparr>)"
    by (rule machineTurn_unfold)
  from executeFieldWork_capacity [OF e] assms(1) show ?thesis
    unfolding fs' fieldOk_def by (auto split: if_splits)
qed

lemma findIncomplete_Some:
  "findIncomplete fss = Some k \<Longrightarrow> k < length fss \<and> \<not> isCompleted (fss ! k)"
  by (induction fss arbitrary: k) (auto split: if_splits)

lemma fieldsAdvance_refl: "fieldsAdvance fss fss"
  by (simp add: fieldsAdvance_def)

lemma fieldsAdvance_trans:
  "fieldsAdvance a b \<Longrightarrow> fieldsAdvance b c \<Longrightarrow> fieldsAdvance a c"
  unfolding fieldsAdvance_def by (metis order_trans)

lemma turn_advance:
  assumes "list_all fieldOk fss" "findIncomplete fss = Some k"
    "machineTurn ctx m (fss ! k) = Some (m', fs')"
  shows "list_all fieldOk (fss[k := fs']) \<and> fieldsAdvance fss (fss[k := fs'])"
proof -
  from findIncomplete_Some [OF assms(2)] have k: "k < length fss" "\<not> isCompleted (fss ! k)"
    by simp_all
  from assms(1) k(1) have "fieldOk (fss ! k)"
    by (simp add: list_all_length)
  from machineTurn_field [OF this assms(3)]
  have ok: "fieldOk fs'" and le: "completedPercentage (fss ! k) \<le> completedPercentage fs'"
    by simp_all
  have "list_all fieldOk (fss[k := fs'])"
    using assms(1) ok k(1) by (auto simp: list_all_length nth_list_update)
  moreover have "fieldsAdvance fss (fss[k := fs'])"
    using k le by (auto simp: fieldsAdvance_def nth_list_update)
  ultimately show ?thesis by simp
qed

lemma fieldsReach_trans:
  "fieldsReach ctx b c \<Longrightarrow> fieldsReach ctx a b \<Longrightarrow> fieldsReach ctx a c"
  by (induction rule: fieldsReach.induct) (auto intro: fieldsReach.intros)

lemma fieldsReach_invariant:
  "fieldsReach ctx fss fss' \<Longrightarrow> list_all fieldOk fss
     \<Longrightarrow> list_all fieldOk fss' \<and> fieldsAdvance fss fss'"
proof (induction rule: fieldsReach.induct)
  case start
  then show ?case by (simp add: fieldsAdvance_refl)
next
  case (turn fss1 k m m' fs')
  then have ok: "list_all fieldOk fss1" and adv: "fieldsAdvance fss fss1"
    by simp_all
  from turn_advance [OF ok turn.hyps(2,3)] adv show ?case
    by (auto intro: fieldsAdvance_trans)
qed

lemma forMachines_reach:
  "forMachines ctx t ms fss = Some (ms', fss') \<Longrightarrow> fieldsReach ctx fss fss'"
proof (induction ms arbitrary: fss ms' fss')
  case Nil
  then show ?case by (auto intro: fieldsReach.start)
next
  case (Cons m ms)
  show ?case
  proof (cases "currentTime m > t")
    case True
    with Cons.prems obtain ms1 where "forMachines ctx t ms fss = Some (ms1, fss')"
      by (auto split: option.splits)
    then show ?thesis by (rule Cons.IH)
  next
    case False
    show ?thesis
    proof (cases "findIncomplete fss")
      case None
      with False Cons.prems show ?thesis by (auto intro: fieldsReach.start)
    next
      case (Some k)
      with False Cons.prems obtain m1 fs1 ms1 where
        t: "machineTurn ctx m (fss ! k) = Some (m1, fs1)"
        and r: "forMachines ctx t ms (fss[k := fs1]) = Some (ms1, fss')"
        by (auto split: option.splits)
      have "fieldsReach ctx fss (fss[k := fs1])"
        using fieldsReach.start Some t by (rule fieldsReach.turn)
      with Cons.IH [OF r] show ?thesis
        by (rule fieldsReach_trans)
    qed
  qed
qed

lemma simLoop_reach:
  "simLoop ctx t n ms fss = Some (ms', fss', n') \<Longrightarrow> fieldsReach ctx fss fss'"
proof (induction ctx t n ms fss rule: simLoop.induct)
  case (1 ctx t n ms fss)
  show ?case
  proof (cases "t < maxTime \<and> list_ex (\<lambda>fs. \<not> isCompleted fs) fss")
    case True
    with "1.prems" obtain ms1 fss1 where
      f: "forMachines ctx t ms fss = Some (ms1, fss1)"
      and s: "simLoop ctx (t + 60) (Suc n) ms1 fss1 = Some (ms', fss', n')"
      by (subst (asm) simLoop.simps) (auto split: option.splits)
    from "1.IH" [OF True f refl s] forMachines_reach [OF f] show ?thesis
      by (rule fieldsReach_trans)
  next
    case False
    with "1.prems" have "fss' = fss"
      by (subst (asm) simLoop.simps) auto
    then show ?thesis by (simp add: fieldsReach.start)
  qed
qed

lemma initial_fieldOk: "list_all fieldOk (map initFieldState fs)"
  by (simp add: list_all_iff fieldOk_def initFieldState_def)

subsection \<open>Time order of the machine paths\<close>

lemma timestamp_mkPoint: "timestamp (mkPoint p t a) = t"
  by (simp add: mkPoint_def)

lemma segsOk_Nil: "segsOk lo hi []"
  by (simp add: segsOk_def)

lemma segsOk_snoc:
  "segsOk lo hi segs \<Longrightarrow> lo \<le> hi \<Longrightarrow> hi \<le> t \<Longrightarrow> segsOk lo t (segs @ [mkPoint p t a])"
  by (fastforce simp: segsOk_def sorted_append timestamp_mkPoint)

lemma segsOk_mono: "segsOk lo hi segs \<Longrightarrow> hi \<le> hi' \<Longrightarrow> segsOk lo hi' segs"
  by (fastforce simp: segsOk_def)

lemma segsOk_append:
  "segsOk lo mid xs \<Longrightarrow> segsOk mid hi ys \<Longrightarrow> lo \<le> mid \<Longrightarrow> mid \<le> hi
     \<Longrightarrow> segsOk lo hi (xs @ ys)"
  by (fastforce simp: segsOk_def sorted_append)

lemma roadTravelStep_ok:
  assumes "pathOk base m"
  shows "pathOk base (roadTravelStep pt m)"
proof -
  let ?t = "currentTime m + calculateDistance (position m) pt / 5"
  have t: "currentTime m \<le> ?t"
    using calculateDistance_nonneg [of "position m" pt] by simp
  from assms have "0 \<le> currentTime m"
    by (cases "path m") (auto simp: pathOk_def segsOk_def)
  with assms t show ?thesis
    by (auto simp: pathOk_def roadTravelStep_def Let_def intro!: segsOk_snoc)
qed

lemma pathOk_time: "pathOk base m \<Longrightarrow> 0 \<le> currentTime m"
  by (cases "path m") (auto simp: pathOk_def segsOk_def)

lemma fold_roadTravelStep_ok:
  "pathOk base m \<Longrightarrow> pathOk base (fold roadTravelStep pts m)"
  by (induction pts arbitrary: m) (simp_all add: roadTravelStep_ok)

lemma pathOk_push:
  assumes "pathOk base m"
  shows "pathOk base (m\<lparr>path := path m @ [mkPoint p (currentTime m) a]\<rparr>)"
  using assms pathOk_time [OF assms]
  by (auto simp: pathOk_def intro!: segsOk_snoc)

lemma pathOk_wait:
  assumes "pathOk base m" "0 \<le> d"
  shows "pathOk base (m\<lparr>currentTime := currentTime m + d\<rparr>)"
  using assms by (auto simp: pathOk_def intro: segsOk_mono)

lemma resupply_ok:
  assumes "pathOk base m" "0 \<le> ctx_supplyDuration ctx" "resupply ctx m = Some m'"
  shows "pathOk base m'"
proof -
  from assms(3) obtain rp where
    p: "path m' = (path (fold roadTravelStep (drop 1 rp) m)
                   @ [mkPoint (gridBaseStation ctx) (currentTime (fold roadTravelStep (drop 1 rp) m)) ''supply''])
                   @ [mkPoint (gridBaseStation ctx)
                       (currentTime (fold roadTravelStep (drop 1 rp) m) + ctx_supplyDuration ctx)
                       ''supply_complete'']"
    and t: "currentTime m' = currentTime (fold roadTravelStep (drop 1 rp) m) + ctx_supplyDuration ctx"
    by (auto simp: resupply_def Let_def split: option.splits)
  let ?m1 = "fold roadTravelStep (drop 1 rp) m"
  have 1: "pathOk base ?m1"
    using assms(1) by (rule fold_roadTravelStep_ok)
  then have s1: "segsOk 0 (currentTime ?m1) (path ?m1)" and ne: "path ?m1 \<noteq> []"
    and h: "hd (path ?m1) = mkPoint base 0 ''start''"
    by (simp_all add: pathOk_def)
  have t1: "0 \<le> currentTime ?m1"
    using 1 by (rule pathOk_time)
  have s2: "segsOk 0 (currentTime ?m1)
          (path ?m1 @ [mkPoint (gridBaseStation ctx) (currentTime ?m1) ''supply''])"
    by (rule segsOk_snoc [OF s1 t1]) simp
  have "segsOk 0 (currentTime ?m1 + ctx_supplyDuration ctx)
          ((path ?m1 @ [mkPoint (gridBaseStation ctx) (currentTime ?m1) ''supply''])
           @ [mkPoint (gridBaseStation ctx) (currentTime ?m1 + ctx_supplyDuration ctx)
                ''supply_complete''])"
    by (rule segsOk_snoc [OF s2 t1]) (use assms(2) in simp)
  then have "segsOk 0 (currentTime m') (path m')"
    unfolding p t .
  with ne h show ?thesis
    by (simp add: pathOk_def p)
qed

lemma returnToBase_ok:
  assumes "pathOk base m" "returnToBase ctx m = Some m'"
  shows "pathOk base m'"
proof (cases "fst (position m) \<noteq> fst (gridBaseStation ctx) \<or> snd (position m) \<noteq> snd (gridBaseStation ctx)")
  case True
  with assms(2) obtain rp where
    m': "m' = (fold roadTravelStep (drop 1 rp) m)\<lparr>path := path (fold roadTravelStep (drop 1 rp) m)
                 @ [mkPoint (gridBaseStation ctx) (currentTime (fold roadTravelStep (drop 1 rp) m)) ''return'']\<rparr>"
    by (auto simp: returnToBase_def Let_def split: option.splits)
  show ?thesis
    unfolding m' using assms(1) by (intro pathOk_push fold_roadTravelStep_ok)
next
  case False
  with assms show ?thesis
    by (auto simp: returnToBase_def)
qed

lemma fold_travelStep_segs:
  assumes "segsOk lo (currentTime (fst ms)) (snd ms)" "lo \<le> currentTime (fst ms)"
  shows "segsOk lo (currentTime (fst (fold travelStep pts ms))) (snd (fold travelStep pts ms))
         \<and> currentTime (fst ms) \<le> currentTime (fst (fold travelStep pts ms))
         \<and> path (fst (fold travelStep pts ms)) = path (fst ms)"
  using assms
proof (induction pts arbitrary: ms)
  case Nil
  then show ?case by simp
next
  case (Cons pt pts)
  let ?t = "currentTime (fst ms) + calculateDistance (position (fst ms)) pt / 5"
  have t: "currentTime (fst ms) \<le> ?t"
    using calculateDistance_nonneg [of "position (fst ms)" pt] by simp
  have 1: "segsOk lo (currentTime (fst (travelStep pt ms))) (snd (travelStep pt ms))"
    unfolding travelStep_def Let_def fst_conv snd_conv
    using segsOk_snoc [OF Cons.prems(1) Cons.prems(2) t] by simp
  have 2: "lo \<le> currentTime (fst (travelStep pt ms))"
    using Cons.prems(2) t by (simp add: travelStep_def Let_def)
  have 3: "currentTime (fst ms) \<le> currentTime (fst (travelStep pt ms))"
    using t by (simp add: travelStep_def Let_def)
  have 4: "path (fst (travelStep pt ms)) = path (fst ms)"
    by (simp add: travelStep_def Let_def)
  from Cons.IH [OF 1 2] 3 4 show ?case
    by simp
qed

lemma arrive_segs:
  "segsOk (currentTime m) (currentTime (fst (arrive m fs net base))) (snd (arrive m fs net base))
   \<and> currentTime m \<le> currentTime (fst (arrive m fs net base))
   \<and> path (fst (arrive m fs net base)) = path m"
proof -
  let ?pts = "drop 1 (the (findShortestPath (position m)
                (selectOptimalFieldEntryPoint (field fs) base (lastWorkPosition fs)) net))"
  have "segsOk (currentTime (fst (m, []))) (currentTime (fst (m, []))) (snd (m, []))"
    by (simp add: segsOk_Nil)
  from fold_travelStep_segs [OF this, of ?pts]
  have f: "segsOk (currentTime m) (currentTime (fst (fold travelStep ?pts (m, []))))
             (snd (fold travelStep ?pts (m, [])))"
    and t: "currentTime m \<le> currentTime (fst (fold travelStep ?pts (m, [])))"
    and p: "path (fst (fold travelStep ?pts (m, []))) = path m"
    by simp_all
  from segsOk_snoc [OF f t order_refl] t p show ?thesis
    by (simp add: arrive_def Let_def)
qed

lemma fold_emergencyStep_segs:
  assumes "segsOk lo (currentTime m + fst acc) (snd acc)" "lo \<le> currentTime m + fst acc"
  shows "segsOk lo (currentTime m + fst (fold (emergencyStep m gp) pts acc))
           (snd (fold (emergencyStep m gp) pts acc))
         \<and> fst acc \<le> fst (fold (emergencyStep m gp) pts acc)"
  using assms
proof (induction pts arbitrary: acc)
  case Nil
  then show ?case by simp
next
  case (Cons pt pts)
  let ?rt = "fst acc + calculateDistance gp pt / 5"
  have t: "currentTime m + fst acc \<le> currentTime m + ?rt"
    using calculateDistance_nonneg [of gp pt] by simp
  have 1: "segsOk lo (currentTime m + fst (emergencyStep m gp pt acc)) (snd (emergencyStep m gp pt acc))"
    unfolding emergencyStep_def Let_def fst_conv snd_conv
    by (rule segsOk_snoc [OF Cons.prems(1) Cons.prems(2) t])
  have 2: "lo \<le> currentTime m + fst (emergencyStep m gp pt acc)"
    using Cons.prems(2) t by (simp add: emergencyStep_def Let_def)
  have 3: "fst acc \<le> fst (emergencyStep m gp pt acc)"
    using t by (simp add: emergencyStep_def Let_def)
  from Cons.IH [OF 1 2] 3 show ?case
    by simp
qed

lemma workLoop_segs:
  assumes "0 \<le> tpp" "segsOk lo (currentTime m + workTime r) (pathSegments r)"
    "lo \<le> currentTime m + workTime r" "workLoop m base net cpp tpp ps r = Some r'"
  shows "segsOk lo (currentTime m + workTime r') (pathSegments r') \<and> workTime r \<le> workTime r'"
  using assms(2-)
proof (induction ps arbitrary: r)
  case Nil
  then show ?case by simp
next
  case (Cons p ps)
  have t: "currentTime m + workTime r \<le> currentTime m + (workTime r + tpp)"
    using assms(1) by simp
  show ?case
  proof (cases "currentCapacity m - (capacityUsed r + cpp) < 0.05")
    case True
    let ?acc0 = "(workTime r + tpp,
                  pathSegments r
                    @ [mkPoint (snapToGrid p) (currentTime m + workTime r + tpp) ''capacity_full''])"
    from True Cons.prems(3) obtain rp where
      r': "pathSegments r' = snd (fold (emergencyStep m (snapToGrid p)) (drop 1 rp) ?acc0)"
          "workTime r' = fst (fold (emergencyStep m (snapToGrid p)) (drop 1 rp) ?acc0)"
      by (auto simp: Let_def split: option.splits)
    have "segsOk lo (currentTime m + (workTime r + tpp))
            (pathSegments r @ [mkPoint (snapToGrid p) (currentTime m + (workTime r + tpp)) ''capacity_full''])"
      by (rule segsOk_snoc [OF Cons.prems(1) Cons.prems(2) t])
    then have 1: "segsOk lo (currentTime m + fst ?acc0) (snd ?acc0)"
      by (simp add: add.assoc)
    have 2: "lo \<le> currentTime m + fst ?acc0"
      using Cons.prems(2) t by simp
    from fold_emergencyStep_segs [OF 1 2, of "snapToGrid p" "drop 1 rp"] assms(1) show ?thesis
      unfolding r' by simp
  next
    case False
    let ?r1 = "\<lparr>pathSegments = pathSegments r
                    @ [mkPoint (snapToGrid p) (currentTime m + (workTime r + tpp)) ''working''],
                 endPosition = snapToGrid p, capacityUsed = capacityUsed r + cpp,
                 workTime = workTime r + tpp,
                 wr_workPath = wr_workPath r @ [snapToGrid p]\<rparr>"
    from False Cons.prems(3) have w: "workLoop m base net cpp tpp ps ?r1 = Some r'"
      by (simp add: Let_def)
    have 1: "segsOk lo (currentTime m + workTime ?r1) (pathSegments ?r1)"
      using segsOk_snoc [OF Cons.prems(1) Cons.prems(2) t] by simp
    have 2: "lo \<le> currentTime m + workTime ?r1"
      using Cons.prems(2) t by simp
    from Cons.IH [OF 1 2 w] assms(1) show ?thesis
      by simp
  qed
qed

lemma executeFieldWork_segs:
  assumes "executeFieldWorkWithRoadNetwork m fs cap net base = Some (m', wr)"
  shows "segsOk (currentTime m) (currentTime m' + workTime wr) (pathSegments wr)
         \<and> currentTime m \<le> currentTime m' \<and> 0 \<le> workTime wr \<and> path m' = path m"
proof (cases "availableCapacityOf m fs \<le> 0.05")
  case True
  with assms have "wr = idleResult m \<and> m' = m"
    by (cases "net = []") (auto simp: executeFieldWork_empty_net executeFieldWork_unfold)
  then show ?thesis by (simp add: idleResult_def segsOk_Nil)
next
  case False
  with assms have net: "net \<noteq> []"
    by (auto simp: executeFieldWork_empty_net)
  let ?a = "availableCapacityOf m fs"
  let ?pts = "generateContinuousFieldWorkPath (field fs) (completedPercentage fs) ?a"
  let ?m = "fst (arrive m fs net base)"
  let ?segs = "snd (arrive m fs net base)"
  have "(0::real) < 0.05"
    by simp
  with False have a: "0 \<le> ?a"
    by linarith
  note arr = arrive_segs [of m fs net base]
  show ?thesis
  proof (cases "?pts = []")
    case True
    with assms False have "m' = ?m" "pathSegments wr = ?segs" "workTime wr = 0"
      by (auto simp: executeFieldWork_unfold [OF net] Let_def)
    with arr show ?thesis by simp
  next
    case ne: False
    let ?r0 = "\<lparr>pathSegments = ?segs,
                 endPosition = snapToGrid (selectOptimalFieldEntryPoint (field fs) base (lastWorkPosition fs)),
                 capacityUsed = 0, workTime = 0, wr_workPath = []\<rparr>"
    from assms False ne
    have m': "m' = ?m"
      and w: "workLoop ?m base net (?a / real (length ?pts))
               ((?a * 180) / real (length ?pts)) ?pts ?r0 = Some wr"
      by (auto simp: executeFieldWork_unfold [OF net] Let_def)
    have tpp: "0 \<le> (?a * 180) / real (length ?pts)"
      using a by simp
    have 1: "segsOk (currentTime m) (currentTime ?m + workTime ?r0) (pathSegments ?r0)"
      using arr by simp
    have 2: "currentTime m \<le> currentTime ?m + workTime ?r0"
      using arr by simp
    from workLoop_segs [OF tpp 1 2 w] arr show ?thesis
      unfolding m' by simp
  qed
qed

lemma machineTurn_ok:
  assumes "pathOk base m" "0 \<le> ctx_supplyDuration ctx" "machineTurn ctx m fs = Some (m', fs')"
  shows "pathOk base m'"
proof -
  from assms(3) obtain m1 m2 wr where
    m1: "(if currentCapacity m < 0.1 then resupply ctx m else Some m) = Some m1"
    and e: "executeFieldWorkWithRoadNetwork m1 fs (ctx_machineCapacity ctx) (roadNetwork ctx)
        (gridBaseStation ctx) = Some (m2, wr)"
    and m': "m' = m2\<lparr>currentCapacity := currentCapacity m2 - capacityUsed wr,
              currentTime := currentTime m2 + workTime wr,
              position := endPosition wr,
              path := path m2 @ pathSegments wr\<rparr>"
    by (rule machineTurn_unfold)
  have ok1: "pathOk base m1"
    using m1 assms(1,2) by (auto split: if_splits intro: resupply_ok)
  from executeFieldWork_segs [OF e]
  have s: "segsOk (currentTime m1) (currentTime m2 + workTime wr) (pathSegments wr)"
    and t: "currentTime m1 \<le> currentTime m2" "0 \<le> workTime wr" and p: "path m2 = path m1"
    by simp_all
  from ok1 have "segsOk 0 (currentTime m1) (path m1)"
    by (simp add: pathOk_def)
  from segsOk_append [OF this s pathOk_time [OF ok1]] t
  have "segsOk 0 (currentTime m2 + workTime wr) (path m1 @ pathSegments wr)"
    by simp
  with ok1 show ?thesis
    by (simp add: pathOk_def m' p)
qed

lemma forMachines_ok:
  assumes "0 \<le> ctx_supplyDuration ctx"
  shows "list_all (pathOk base) ms \<Longrightarrow> forMachines ctx t ms fss = Some (ms', fss')
     \<Longrightarrow> list_all (pathOk base) ms'"
proof (induction ms arbitrary: fss ms' fss')
  case Nil
  then show ?case by simp
next
  case (Cons m ms)
  from Cons.prems(1) have m: "pathOk base m" and ms: "list_all (pathOk base) ms"
    by simp_all
  show ?case
  proof (cases "currentTime m > t")
    case True
    with Cons.prems(2) obtain ms1 where r: "forMachines ctx t ms fss = Some (ms1, fss')"
      and "ms' = m # ms1"
      by (auto split: option.splits)
    with Cons.IH [OF ms r] m show ?thesis by simp
  next
    case False
    show ?thesis
    proof (cases "findIncomplete fss")
      case None
      with False Cons.prems show ?thesis by auto
    next
      case (Some k)
      with False Cons.prems(2) obtain m1 fs1 ms1 where
        t: "machineTurn ctx m (fss ! k) = Some (m1, fs1)"
        and r: "forMachines ctx t ms (fss[k := fs1]) = Some (ms1, fss')"
        and "ms' = m1 # ms1"
        by (auto split: option.splits)
      with Cons.IH [OF ms r] machineTurn_ok [OF m assms t] show ?thesis by simp
    qed
  qed
qed

lemma simLoop_ok:
  "0 \<le> ctx_supplyDuration ctx \<Longrightarrow> list_all (pathOk base) ms
     \<Longrightarrow> simLoop ctx t n ms fss = Some (ms', fss', n') \<Longrightarrow> list_all (pathOk base) ms'"
proof (induction ctx t n ms fss rule: simLoop.induct)
  case (1 ctx t n ms fss)
  show ?case
  proof (cases "t < maxTime \<and> list_ex (\<lambda>fs. \<not> isCompleted fs) fss")
    case True
    with "1.prems"(3) obtain ms1 fss1 where
      f: "forMachines ctx t ms fss = Some (ms1, fss1)"
      and s: "simLoop ctx (t + 60) (Suc n) ms1 fss1 = Some (ms', fss', n')"
      by (subst (asm) simLoop.simps) (auto split: option.splits)
    from forMachines_ok [OF "1.prems"(1,2) f] have "list_all (pathOk base) ms1" .
    from "1.IH" [OF True f refl "1.prems"(1) this s] show ?thesis .
  next
    case False
    with "1.prems"(3) have "ms' = ms"
      by (subst (asm) simLoop.simps) auto
    with "1.prems"(2) show ?thesis by simp
  qed
qed

lemma those_map_ok:
  "those (map f xs) = Some ys \<Longrightarrow> list_all P xs \<Longrightarrow> (\<And>x y. P x \<Longrightarrow> f x = Some y \<Longrightarrow> P y)
     \<Longrightarrow> list_all P ys"
  by (induction xs arbitrary: ys) (auto split: option.splits)

lemma initMachine_ok: "pathOk base (initMachine base cap i)"
  by (simp add: pathOk_def initMachine_def segsOk_def timestamp_mkPoint)

lemma simulate_ok:
  assumes "0 \<le> supplyDuration (parameters req)" "simulate req = Some (ms, fss, n)"
  shows "list_all (pathOk (snapToGrid (baseStation req))) ms"
proof -
  let ?base = "snapToGrid (baseStation req)"
  from assms(2) obtain ms1 where
    l: "simLoop (simCtx req) 0 0
          (map (initMachine ?base (machineCapacity (parameters req))) [0..<machineCount req])
          (map initFieldState (req_fields req)) = Some (ms1, fss, n)"
    and r: "those (map (returnToBase (simCtx req)) ms1) = Some ms"
    by (auto simp: simulate_def split: option.splits)
  have d: "0 \<le> ctx_supplyDuration (simCtx req)"
    using assms(1) by (simp add: simCtx_def)
  have "list_all (pathOk ?base)
          (map (initMachine ?base (machineCapacity (parameters req))) [0..<machineCount req])"
    by (simp add: list_all_iff initMachine_ok)
  from simLoop_ok [OF d this l] have "list_all (pathOk ?base) ms1" .
  from those_map_ok [OF r this] show ?thesis
    using returnToBase_ok by blast
qed

text \<open>
  In exact arithmetic: for every request with a supply duration that is not negative, the scheduler
  returns a result in which the path of every machine starts with the snapped base
  station at timestamp 0 with action \<open>start\<close>, and the timestamps along the path, in the
  order in which the points were appended, never decrease.
\<close>

lemma timestamps_nondecreasing:
  assumes "0 \<le> supplyDuration (parameters req)"
  shows "\<exists>r. generateScheduleWithRoadNetwork req = Some r
           \<and> list_all (\<lambda>route. mr_path route \<noteq> []
                  \<and> hd (mr_path route) = mkPoint (snapToGrid (baseStation req)) 0 ''start''
                  \<and> sorted (map timestamp (mr_path route))) (machines r)"
proof (cases "req_fields req = []")
  case True
  then show ?thesis
    by (simp add: generateScheduleWithRoadNetwork_def)
next
  case False
  obtain ms fss n where s: "simulate req = Some (ms, fss, n)"
    using simulate_total [of req] by blast
  from simulate_ok [OF assms s] have "list_all (pathOk (snapToGrid (baseStation req))) ms" .
  then have "list_all (\<lambda>route. mr_path route \<noteq> []
                  \<and> hd (mr_path route) = mkPoint (snapToGrid (baseStation req)) 0 ''start''
                  \<and> sorted (map timestamp (mr_path route))) (map toRoute ms)"
    by (simp add: list_all_iff pathOk_def segsOk_def toRoute_def)
  with s False show ?thesis
    by (simp add: generateScheduleWithRoadNetwork_def)
qed

text \<open>The lemma at the request with one field and one machine that is resupplied for
  28800 time units.\<close>

lemma timestamps_nondecreasing_instance:
  "0 \<le> supplyDuration (parameters reqSlow)
   \<and> (\<exists>r. generateScheduleWithRoadNetwork reqSlow = Some r
        \<and> list_all (\<lambda>route. mr_path route \<noteq> []
               \<and> hd (mr_path route) = mkPoint (- 10, - 10) 0 ''start''
               \<and> sorted (map timestamp (mr_path route))) (machines r))"
  using timestamps_nondecreasing [of reqSlow]
  by (simp add: reqSlow_def paramsSlow_def snap_base_slow)

subsection \<open>The single-field scenario with capacity one half\<close>

lemma nearest_index_fold:
  fixes xs :: "'a list" and d :: "'a \<Rightarrow> real"
  assumes "c < length xs" "i \<le> length xs"
  shows "xs ! (fold (\<lambda>k closest. if d (xs ! k) < d (xs ! closest) then k else closest)
                 [i..<length xs] c)
         = fold (\<lambda>q best. if d q < d best then q else best) (drop i xs) (xs ! c)"
  using assms
proof (induction "length xs - i" arbitrary: i c)
  case 0
  then show ?case by simp
next
  case (Suc n)
  then have i: "i < length xs" by simp
  have u: "[i..<length xs] = i # [Suc i..<length xs]"
    using i by (simp add: upt_conv_Cons)
  have dr: "drop i xs = xs ! i # drop (Suc i) xs"
    using i by (simp add: Cons_nth_drop_Suc)
  have n: "n = length xs - Suc i" using Suc.hyps(2) by simp
  show ?case
  proof (cases "d (xs ! i) < d (xs ! c)")
    case True
    with Suc.hyps(1) [OF n, of i] i show ?thesis
      unfolding u dr by simp
  next
    case False
    with Suc.hyps(1) [OF n, of c] Suc.prems(1) i show ?thesis
      unfolding u dr by simp
  qed
qed

lemma coords_fold_nearest:
  "coords (fold (\<lambda>q best. if calculateDistance p (coords q) < calculateDistance p (coords best)
                            then q else best) ns n0)
   = fold (\<lambda>q best. if calculateDistance p q < calculateDistance p best then q else best)
       (map coords ns) (coords n0)"
  by (induction ns arbitrary: n0) simp_all

lemma snapNode_nearestPoint:
  assumes "net \<noteq> []"
  shows "snapNode p net = nearestPoint p (map coords net)"
proof -
  have l: "0 < length net" "1 \<le> length net"
    using assms by (simp_all add: Suc_leI)
  have "net ! the (nearestNode p net)
        = fold (\<lambda>q best. if calculateDistance p (coords q) < calculateDistance p (coords best)
                            then q else best) (drop 1 net) (net ! 0)"
    using nearest_index_fold [OF l, of "\<lambda>n. calculateDistance p (coords n)"] assms
    by (simp add: nearestNode_def)
  then have "snapNode p net
        = fold (\<lambda>q best. if calculateDistance p q < calculateDistance p best then q else best)
            (map coords (drop 1 net)) (coords (net ! 0))"
    by (simp add: snapNode_def coords_fold_nearest)
  also have "\<dots> = nearestPoint p (map coords net)"
    using assms by (simp add: nearestPoint_def drop_Suc hd_conv_nth map_tl)
  finally show ?thesis .
qed

lemma inside_field1:
  "isPointInsideAnyField (x, y) [field1] \<longleftrightarrow> 0 < x \<and> x < 100 \<and> 0 < y \<and> y < 80"
  by (simp add: isPointInsideAnyField_def insideField_def field1_def)

lemma gridColumn_field1:
  "gridColumn [field1] x (- 20) 100 = map (Pair x)
               (if 0 < x \<and> x < 100 then [- 20, - 10, 0, 80, 90, 100]
                else [- 20, - 10, 0, 10, 20, 30, 40, 50, 60, 70, 80, 90, 100])"
  by (simp add: gridColumn.simps inside_field1 roadSpacing_def)

lemma nodePoints_field1: "nodePoints [field1] (50, 40) = nodes1"
proof -
  have g: "gridNodes [field1] (- 20) 120 (- 20) 100 = nodes1"
    unfolding nodes1_def
    by (simp add: gridNodes.simps gridColumn_field1 roadSpacing_def del: gridColumn.simps)
  have b: "addBaseNode [field1] (50, 40) nodes1 = nodes1"
    by (simp add: addBaseNode_def inside_field1)
  have c: "addCornerNodes [field1] nodes1 = nodes1"
    by (simp add: addCornerNodes_def corners_def addNode_def field1_def nodes1_def)
  have "fold min (map f_x [field1]) (fst (50 :: real, 40 :: real)) - 20 = - 20"
       "fold max (map (\<lambda>f. f_x f + f_width f) [field1]) (fst (50 :: real, 40 :: real)) + 20 = 120"
       "fold min (map f_y [field1]) (snd (50 :: real, 40 :: real)) - 20 = - 20"
       "fold max (map (\<lambda>f. f_y f + f_height f) [field1]) (snd (50 :: real, 40 :: real)) + 20 = 100"
    by (simp_all add: field1_def)
  then show ?thesis
    unfolding nodePoints_def Let_def by (simp only: g b c)
qed

lemma net1_nonempty: "net1 \<noteq> []"
  by (simp add: net1_def network_nonempty)

lemma snapNode_net1: "snapNode p net1 = nearestPoint p nodes1"
  by (simp add: snapNode_nearestPoint net1_nonempty)
     (simp add: net1_def generateFieldRoadNetwork_def coords_connectNodes nodePoints_field1)

lemma snaps1:
  "nearestPoint (50, 40) nodes1 = (50, 0)"
  "nearestPoint (0, 0) nodes1 = (0, 0)"
  "nearestPoint (100, 35) nodes1 = (100, 30)"
  "nearestPoint (100, 75) nodes1 = (100, 70)"
  "nearestPoint (0, 75) nodes1 = (0, 70)"
  by (simp_all add: nearestPoint_def nodes1_def calculateDistance_def)

lemma snap_base_half: "snapToGrid (50, 40) = (50, 40)"
  by (simp add: snapToGrid_def js_round_def)

lemma ctx_half:
  "gridBaseStation (simCtx reqHalf) = (50, 40)"
  "ctx_machineCapacity (simCtx reqHalf) = 1 / 2"
  "ctx_supplyDuration (simCtx reqHalf) = 30"
  "roadNetwork (simCtx reqHalf) = net1"
  by (simp_all add: simCtx_def reqHalf_def params1_def snap_base_half net1_def)

lemma paths1:
  "findShortestPath (50, 40) (0, 0) net1 = Some [(50, 0), (0, 0)]"
  "findShortestPath (100, 35) (50, 40) net1 = Some [(100, 30), (50, 0)]"
  "findShortestPath (50, 40) (100, 35) net1 = Some [(50, 0), (100, 30)]"
  "findShortestPath (100, 75) (50, 40) net1 = Some [(100, 70), (50, 0)]"
  "findShortestPath (50, 40) (100, 75) net1 = Some [(50, 0), (100, 70)]"
  "findShortestPath (0, 75) (50, 40) net1 = Some [(0, 70), (50, 0)]"
  by (simp_all add: findShortestPath_eq net1_nonempty snapNode_net1 snaps1)

lemma entry1: "selectOptimalFieldEntryPoint field1 (50, 40) None = (0, 0)"
  by (simp add: selectOptimalFieldEntryPoint_def corners_def field1_def calculateDistance_def)

lemma cover1:
  "generateContinuousFieldWorkPath field1 0 (1 / 2) =
     [(0, 0), (100, 0), (100, 5), (0, 5), (0, 10), (100, 10), (100, 15), (0, 15),
      (0, 20), (100, 20), (100, 25), (0, 25), (0, 30), (100, 30), (100, 35), (0, 35)]"
  unfolding generateContinuousFieldWorkPath_def totalRowsOf_field1 Let_def
  by (simp add: coverageRow_def
      upto_rec1 [of 0] upto_rec1 [of 1] upto_rec1 [of 2] upto_rec1 [of 3] upto_rec1 [of 4]
      upto_rec1 [of 5] upto_rec1 [of 6] upto_rec1 [of 7] field1_def)

lemma work1:
  assumes "currentCapacity m = 1 / 2"
  shows "\<exists>r. workLoop m (50, 40) net1 (1 / 32) (45 / 8)
     [(0, 0), (100, 0), (100, 5), (0, 5), (0, 10), (100, 10), (100, 15), (0, 15),
      (0, 20), (100, 20), (100, 25), (0, 25), (0, 30), (100, 30), (100, 35), (0, 35)]
     \<lparr>pathSegments = segs, endPosition = (0, 0), capacityUsed = 0, workTime = 0, wr_workPath = []\<rparr>
     = Some r \<and> capacityUsed r = 15 / 32 \<and> workTime r = 675 / 8 + sqrt 3725 / 5
       \<and> endPosition r = (100, 35)
       \<and> countAction ''capacity_full'' (pathSegments r) = countAction ''capacity_full'' segs + 1"
  using assms
  by (simp add: Let_def snapToGrid_def js_round_def paths1 emergencyStep_def calculateDistance_def
      countAction_def mkPoint_def)

lemma exec1:
  assumes "currentCapacity m = 1 / 2" "position m = (50, 40)"
    "field fs = field1" "completedPercentage fs = 0" "lastWorkPosition fs = None"
  shows "\<exists>wr. executeFieldWorkWithRoadNetwork m fs c net1 (50, 40)
             = Some (m\<lparr>currentTime := currentTime m + sqrt 4100 / 5, position := (0, 0)\<rparr>, wr)
           \<and> capacityUsed wr = 15 / 32 \<and> workTime wr = 675 / 8 + sqrt 3725 / 5
           \<and> endPosition wr = (100, 35)
           \<and> countAction ''capacity_full'' (pathSegments wr) = 1"
proof -
  have av: "availableCapacityOf m fs = 1 / 2"
    using assms by (simp add: availableCapacityOf_def)
  have arr: "arrive m fs net1 (50, 40)
      = (m\<lparr>currentTime := currentTime m + sqrt 4100 / 5, position := (0, 0)\<rparr>,
         [mkPoint (0, 0) (currentTime m + sqrt 4100 / 5) ''road_travel'',
          mkPoint (0, 0) (currentTime m + sqrt 4100 / 5) ''field_start''])"
    using assms
    by (simp add: arrive_def entry1 paths1 travelStep_def Let_def snapToGrid_def js_round_def
        calculateDistance_def)
  let ?m = "m\<lparr>currentTime := currentTime m + sqrt 4100 / 5, position := (0, 0)\<rparr>"
  have cap: "currentCapacity ?m = 1 / 2"
    using assms by simp
  let ?segs = "[mkPoint (0, 0) (currentTime m + sqrt 4100 / 5) ''road_travel'',
          mkPoint (0, 0) (currentTime m + sqrt 4100 / 5) ''field_start'']"
  from work1 [OF cap, of ?segs] obtain r where
    w: "workLoop ?m (50, 40) net1 (1 / 32) (45 / 8)
      [(0, 0), (100, 0), (100, 5), (0, 5), (0, 10), (100, 10), (100, 15), (0, 15),
       (0, 20), (100, 20), (100, 25), (0, 25), (0, 30), (100, 30), (100, 35), (0, 35)]
      \<lparr>pathSegments = ?segs,
       endPosition = (0, 0), capacityUsed = 0, workTime = 0, wr_workPath = []\<rparr> = Some r"
    and r: "capacityUsed r = 15 / 32" "workTime r = 675 / 8 + sqrt 3725 / 5" "endPosition r = (100, 35)"
    "countAction ''capacity_full'' (pathSegments r) = countAction ''capacity_full'' ?segs + 1"
    by blast
  have "countAction ''capacity_full'' ?segs = 0"
    by (simp add: countAction_def mkPoint_def)
  with r have c: "countAction ''capacity_full'' (pathSegments r) = 1"
    by simp
  have g: "snapToGrid (0, 0) = (0, 0)"
    by (simp add: snapToGrid_def js_round_def)
  have "executeFieldWorkWithRoadNetwork m fs c net1 (50, 40) = Some (?m, r)"
    unfolding executeFieldWork_unfold [OF net1_nonempty] av arr assms(3,4,5) cover1 entry1 g
      Let_def fst_conv snd_conv
    using w by simp
  with r(1-3) c show ?thesis
    by blast
qed

lemma machineTurn_compose:
  assumes "(if currentCapacity m < 0.1 then resupply ctx m else Some m) = Some m1"
    "executeFieldWorkWithRoadNetwork m1 fs (ctx_machineCapacity ctx) (roadNetwork ctx)
        (gridBaseStation ctx) = Some (m2, wr)"
  shows "machineTurn ctx m fs =
     Some (m2\<lparr>currentCapacity := currentCapacity m2 - capacityUsed wr,
              currentTime := currentTime m2 + workTime wr,
              position := endPosition wr,
              path := path m2 @ pathSegments wr\<rparr>,
           if completedPercentage fs + capacityUsed wr \<ge> 0.99
           then fs\<lparr>completedPercentage := completedPercentage fs + capacityUsed wr,
                   lastWorkPosition := Some (endPosition wr),
                   workPath := workPath fs @ wr_workPath wr, isCompleted := True\<rparr>
           else fs\<lparr>completedPercentage := completedPercentage fs + capacityUsed wr,
                   lastWorkPosition := Some (endPosition wr),
                   workPath := workPath fs @ wr_workPath wr\<rparr>)"
proof (cases "currentCapacity m < 0.1")
  case True
  with assms(1) have "resupply ctx m = Some m1"
    by simp
  with True assms(2) show ?thesis
    by (simp add: machineTurn_def Let_def)
next
  case False
  with assms(1) have "m1 = m"
    by simp
  with False assms(2) show ?thesis
    by (simp add: machineTurn_def Let_def)
qed

lemma countAction_append: "countAction a (xs @ ys) = countAction a xs + countAction a ys"
  by (simp add: countAction_def)

lemma turn1:
  assumes "currentCapacity m = 1 / 2" "position m = (50, 40)"
    "field fs = field1" "completedPercentage fs = 0" "lastWorkPosition fs = None"
  shows "\<exists>m' fs'. machineTurn (simCtx reqHalf) m fs = Some (m', fs')
           \<and> currentCapacity m' = 1 / 32 \<and> position m' = (100, 35)
           \<and> currentTime m' = currentTime m + sqrt 4100 / 5 + (675 / 8 + sqrt 3725 / 5)
           \<and> supplyEvents m' = supplyEvents m
           \<and> countAction ''capacity_full'' (path m') = countAction ''capacity_full'' (path m) + 1
           \<and> field fs' = field1 \<and> completedPercentage fs' = 15 / 32
           \<and> lastWorkPosition fs' = Some (100, 35) \<and> isCompleted fs' = isCompleted fs"
proof -
  from exec1 [OF assms, of "1 / 2"] obtain wr where
    e: "executeFieldWorkWithRoadNetwork m fs (1 / 2) net1 (50, 40)
             = Some (m\<lparr>currentTime := currentTime m + sqrt 4100 / 5, position := (0, 0)\<rparr>, wr)"
    and wr: "capacityUsed wr = 15 / 32" "workTime wr = 675 / 8 + sqrt 3725 / 5"
      "endPosition wr = (100, 35)" "countAction ''capacity_full'' (pathSegments wr) = 1"
    by blast
  have r: "(if currentCapacity m < 0.1 then resupply (simCtx reqHalf) m else Some m) = Some m"
    using assms(1) by simp
  show ?thesis
    unfolding machineTurn_compose [of m "simCtx reqHalf" m fs, OF r, unfolded ctx_half, OF e]
    using assms wr by (simp add: countAction_append)
qed

lemma resupply_two:
  assumes "findShortestPath (position m) (gridBaseStation ctx) (roadNetwork ctx) = Some [a, b]"
  shows "\<exists>m'. resupply ctx m = Some m'
           \<and> currentCapacity m' = ctx_machineCapacity ctx \<and> position m' = gridBaseStation ctx
           \<and> currentTime m' = currentTime m + calculateDistance (position m) b / 5 + ctx_supplyDuration ctx
           \<and> length (supplyEvents m') = Suc (length (supplyEvents m))
           \<and> countAction ''capacity_full'' (path m') = countAction ''capacity_full'' (path m)"
  by (simp add: resupply_def assms roadTravelStep_def Let_def countAction_def mkPoint_def)

lemma cover2:
  "generateContinuousFieldWorkPath field1 (15 / 32) (1 / 2) =
     [(50, 35), (0, 35), (0, 40), (100, 40), (100, 45), (0, 45), (0, 50), (100, 50),
      (100, 55), (0, 55), (0, 60), (100, 60), (100, 65), (0, 65), (0, 70), (100, 70),
      (100, 75), (0, 75)]"
  unfolding generateContinuousFieldWorkPath_def totalRowsOf_field1 Let_def
  by (simp add: coverageRow_def
      upto_rec1 [of 7] upto_rec1 [of 8] upto_rec1 [of 9] upto_rec1 [of 10] upto_rec1 [of 11]
      upto_rec1 [of 12] upto_rec1 [of 13] upto_rec1 [of 14] upto_rec1 [of 15] field1_def)

lemma work2:
  assumes "currentCapacity m = 1 / 2"
  shows "\<exists>r. workLoop m (50, 40) net1 (1 / 36) 5
     [(50, 35), (0, 35), (0, 40), (100, 40), (100, 45), (0, 45), (0, 50), (100, 50),
      (100, 55), (0, 55), (0, 60), (100, 60), (100, 65), (0, 65), (0, 70), (100, 70),
      (100, 75), (0, 75)]
     \<lparr>pathSegments = segs, endPosition = (100, 35), capacityUsed = 0, workTime = 0, wr_workPath = []\<rparr>
     = Some r \<and> capacityUsed r = 17 / 36 \<and> workTime r = 85 + sqrt 8125 / 5
       \<and> endPosition r = (100, 75)
       \<and> countAction ''capacity_full'' (pathSegments r) = countAction ''capacity_full'' segs + 1"
  using assms
  by (simp add: Let_def snapToGrid_def js_round_def paths1 emergencyStep_def calculateDistance_def
      countAction_def mkPoint_def)

lemma exec2:
  assumes "currentCapacity m = 1 / 2" "position m = (50, 40)"
    "field fs = field1" "completedPercentage fs = 15 / 32" "lastWorkPosition fs = Some (100, 35)"
  shows "\<exists>wr. executeFieldWorkWithRoadNetwork m fs c net1 (50, 40)
             = Some (m\<lparr>currentTime := currentTime m + sqrt 2600 / 5, position := (100, 35)\<rparr>, wr)
           \<and> capacityUsed wr = 17 / 36 \<and> workTime wr = 85 + sqrt 8125 / 5
           \<and> endPosition wr = (100, 75)
           \<and> countAction ''capacity_full'' (pathSegments wr) = 1"
proof -
  have av: "availableCapacityOf m fs = 1 / 2"
    using assms by (simp add: availableCapacityOf_def)
  have en: "selectOptimalFieldEntryPoint field1 (50, 40) (Some (100, 35)) = (100, 35)"
    by (simp add: selectOptimalFieldEntryPoint_def)
  have g: "snapToGrid (100, 35) = (100, 35)"
    by (simp add: snapToGrid_def js_round_def)
  have arr: "arrive m fs net1 (50, 40)
      = (m\<lparr>currentTime := currentTime m + sqrt 2600 / 5, position := (100, 35)\<rparr>,
         [mkPoint (100, 30) (currentTime m + sqrt 2600 / 5) ''road_travel'',
          mkPoint (100, 35) (currentTime m + sqrt 2600 / 5) ''field_start''])"
    using assms
    by (simp add: arrive_def en paths1 travelStep_def Let_def snapToGrid_def js_round_def
        calculateDistance_def)
  let ?m = "m\<lparr>currentTime := currentTime m + sqrt 2600 / 5, position := (100, 35)\<rparr>"
  have cap: "currentCapacity ?m = 1 / 2"
    using assms by simp
  let ?segs = "[mkPoint (100, 30) (currentTime m + sqrt 2600 / 5) ''road_travel'',
          mkPoint (100, 35) (currentTime m + sqrt 2600 / 5) ''field_start'']"
  from work2 [OF cap, of ?segs] obtain r where
    w: "workLoop ?m (50, 40) net1 (1 / 36) 5
     [(50, 35), (0, 35), (0, 40), (100, 40), (100, 45), (0, 45), (0, 50), (100, 50),
      (100, 55), (0, 55), (0, 60), (100, 60), (100, 65), (0, 65), (0, 70), (100, 70),
      (100, 75), (0, 75)]
      \<lparr>pathSegments = ?segs,
       endPosition = (100, 35), capacityUsed = 0, workTime = 0, wr_workPath = []\<rparr> = Some r"
    and r: "capacityUsed r = 17 / 36" "workTime r = 85 + sqrt 8125 / 5" "endPosition r = (100, 75)"
    "countAction ''capacity_full'' (pathSegments r) = countAction ''capacity_full'' ?segs + 1"
    by blast
  have "countAction ''capacity_full'' ?segs = 0"
    by (simp add: countAction_def mkPoint_def)
  with r have c: "countAction ''capacity_full'' (pathSegments r) = 1"
    by simp
  have "executeFieldWorkWithRoadNetwork m fs c net1 (50, 40) = Some (?m, r)"
    unfolding executeFieldWork_unfold [OF net1_nonempty] av arr assms(3,4,5) cover2 en g
      Let_def fst_conv snd_conv
    using w by simp
  with r(1-3) c show ?thesis
    by blast
qed

lemma turn2:
  assumes "currentCapacity m = 1 / 32" "position m = (100, 35)"
    "field fs = field1" "completedPercentage fs = 15 / 32" "lastWorkPosition fs = Some (100, 35)"
  shows "\<exists>m' fs'. machineTurn (simCtx reqHalf) m fs = Some (m', fs')
           \<and> currentCapacity m' = 1 / 36 \<and> position m' = (100, 75)
           \<and> currentTime m' = currentTime m + sqrt 3725 / 5 + 30 + sqrt 2600 / 5 + (85 + sqrt 8125 / 5)
           \<and> length (supplyEvents m') = Suc (length (supplyEvents m))
           \<and> countAction ''capacity_full'' (path m') = countAction ''capacity_full'' (path m) + 1
           \<and> field fs' = field1 \<and> completedPercentage fs' = 271 / 288
           \<and> lastWorkPosition fs' = Some (100, 75) \<and> isCompleted fs' = isCompleted fs"
proof -
  have "findShortestPath (position m) (gridBaseStation (simCtx reqHalf)) (roadNetwork (simCtx reqHalf))
          = Some [(100, 30), (50, 0)]"
    using assms(2) by (simp add: ctx_half paths1)
  from resupply_two [OF this] obtain m1 where
    s: "resupply (simCtx reqHalf) m = Some m1"
    and m1: "currentCapacity m1 = 1 / 2" "position m1 = (50, 40)"
      "currentTime m1 = currentTime m + sqrt 3725 / 5 + 30"
      "length (supplyEvents m1) = Suc (length (supplyEvents m))"
      "countAction ''capacity_full'' (path m1) = countAction ''capacity_full'' (path m)"
    using assms(2) by (auto simp: ctx_half calculateDistance_def)
  from exec2 [OF m1(1,2) assms(3-5), of "1 / 2"] obtain wr where
    e: "executeFieldWorkWithRoadNetwork m1 fs (1 / 2) net1 (50, 40)
             = Some (m1\<lparr>currentTime := currentTime m1 + sqrt 2600 / 5, position := (100, 35)\<rparr>, wr)"
    and wr: "capacityUsed wr = 17 / 36" "workTime wr = 85 + sqrt 8125 / 5"
      "endPosition wr = (100, 75)" "countAction ''capacity_full'' (pathSegments wr) = 1"
    by blast
  have r: "(if currentCapacity m < 0.1 then resupply (simCtx reqHalf) m else Some m) = Some m1"
    using assms(1) s by simp
  show ?thesis
    unfolding machineTurn_compose [of m "simCtx reqHalf" m1 fs, OF r, unfolded ctx_half, OF e]
    using assms m1 wr by (simp add: countAction_append)
qed

lemma cover3:
  "generateContinuousFieldWorkPath field1 (271 / 288) (17 / 288) = [(850 / 9, 75), (0, 75)]"
  unfolding generateContinuousFieldWorkPath_def totalRowsOf_field1 Let_def
  by (simp add: coverageRow_def upto_rec1 [of 15] field1_def)

lemma work3:
  assumes "currentCapacity m = 1 / 2"
  shows "\<exists>r. workLoop m (50, 40) net1 (17 / 576) (85 / 16) [(850 / 9, 75), (0, 75)]
     \<lparr>pathSegments = segs, endPosition = (100, 75), capacityUsed = 0, workTime = 0, wr_workPath = []\<rparr>
     = Some r \<and> capacityUsed r = 17 / 288 \<and> workTime r = 85 / 8
       \<and> endPosition r = (0, 75)
       \<and> countAction ''capacity_full'' (pathSegments r) = countAction ''capacity_full'' segs"
  using assms
  by (simp add: Let_def snapToGrid_def js_round_def countAction_def mkPoint_def)

lemma exec3:
  assumes "currentCapacity m = 1 / 2" "position m = (50, 40)"
    "field fs = field1" "completedPercentage fs = 271 / 288" "lastWorkPosition fs = Some (100, 75)"
  shows "\<exists>wr. executeFieldWorkWithRoadNetwork m fs c net1 (50, 40)
             = Some (m\<lparr>currentTime := currentTime m + sqrt 3400 / 5, position := (100, 75)\<rparr>, wr)
           \<and> capacityUsed wr = 17 / 288 \<and> workTime wr = 85 / 8
           \<and> endPosition wr = (0, 75)
           \<and> countAction ''capacity_full'' (pathSegments wr) = 0"
proof -
  have av: "availableCapacityOf m fs = 17 / 288"
    using assms by (simp add: availableCapacityOf_def)
  have en: "selectOptimalFieldEntryPoint field1 (50, 40) (Some (100, 75)) = (100, 75)"
    by (simp add: selectOptimalFieldEntryPoint_def)
  have g: "snapToGrid (100, 75) = (100, 75)"
    by (simp add: snapToGrid_def js_round_def)
  have arr: "arrive m fs net1 (50, 40)
      = (m\<lparr>currentTime := currentTime m + sqrt 3400 / 5, position := (100, 75)\<rparr>,
         [mkPoint (100, 70) (currentTime m + sqrt 3400 / 5) ''road_travel'',
          mkPoint (100, 75) (currentTime m + sqrt 3400 / 5) ''field_start''])"
    using assms
    by (simp add: arrive_def en paths1 travelStep_def Let_def snapToGrid_def js_round_def
        calculateDistance_def)
  let ?m = "m\<lparr>currentTime := currentTime m + sqrt 3400 / 5, position := (100, 75)\<rparr>"
  have cap: "currentCapacity ?m = 1 / 2"
    using assms by simp
  let ?segs = "[mkPoint (100, 70) (currentTime m + sqrt 3400 / 5) ''road_travel'',
          mkPoint (100, 75) (currentTime m + sqrt 3400 / 5) ''field_start'']"
  from work3 [OF cap, of ?segs] obtain r where
    w: "workLoop ?m (50, 40) net1 (17 / 576) (85 / 16) [(850 / 9, 75), (0, 75)]
      \<lparr>pathSegments = ?segs,
       endPosition = (100, 75), capacityUsed = 0, workTime = 0, wr_workPath = []\<rparr> = Some r"
    and r: "capacityUsed r = 17 / 288" "workTime r = 85 / 8" "endPosition r = (0, 75)"
    "countAction ''capacity_full'' (pathSegments r) = countAction ''capacity_full'' ?segs"
    by blast
  have "countAction ''capacity_full'' ?segs = 0"
    by (simp add: countAction_def mkPoint_def)
  with r have c: "countAction ''capacity_full'' (pathSegments r) = 0"
    by simp
  have "executeFieldWorkWithRoadNetwork m fs c net1 (50, 40) = Some (?m, r)"
    unfolding executeFieldWork_unfold [OF net1_nonempty] av arr assms(3,4,5) cover3 en g
      Let_def fst_conv snd_conv
    using w by simp
  with r(1-3) c show ?thesis
    by blast
qed

lemma turn3:
  assumes "currentCapacity m = 1 / 36" "position m = (100, 75)"
    "field fs = field1" "completedPercentage fs = 271 / 288" "lastWorkPosition fs = Some (100, 75)"
  shows "\<exists>m' fs'. machineTurn (simCtx reqHalf) m fs = Some (m', fs')
           \<and> position m' = (0, 75)
           \<and> length (supplyEvents m') = Suc (length (supplyEvents m))
           \<and> countAction ''capacity_full'' (path m') = countAction ''capacity_full'' (path m)
           \<and> completedPercentage fs' = 1 \<and> isCompleted fs'"
proof -
  have "findShortestPath (position m) (gridBaseStation (simCtx reqHalf)) (roadNetwork (simCtx reqHalf))
          = Some [(100, 70), (50, 0)]"
    using assms(2) by (simp add: ctx_half paths1)
  from resupply_two [OF this] obtain m1 where
    s: "resupply (simCtx reqHalf) m = Some m1"
    and m1: "currentCapacity m1 = 1 / 2" "position m1 = (50, 40)"
      "length (supplyEvents m1) = Suc (length (supplyEvents m))"
      "countAction ''capacity_full'' (path m1) = countAction ''capacity_full'' (path m)"
    by (auto simp: ctx_half)
  from exec3 [OF m1(1,2) assms(3-5), of "1 / 2"] obtain wr where
    e: "executeFieldWorkWithRoadNetwork m1 fs (1 / 2) net1 (50, 40)
             = Some (m1\<lparr>currentTime := currentTime m1 + sqrt 3400 / 5, position := (100, 75)\<rparr>, wr)"
    and wr: "capacityUsed wr = 17 / 288" "workTime wr = 85 / 8"
      "endPosition wr = (0, 75)" "countAction ''capacity_full'' (pathSegments wr) = 0"
    by blast
  have r: "(if currentCapacity m < 0.1 then resupply (simCtx reqHalf) m else Some m) = Some m1"
    using assms(1) s by simp
  show ?thesis
    unfolding machineTurn_compose [of m "simCtx reqHalf" m1 fs, OF r, unfolded ctx_half, OF e]
    using assms m1 wr by (simp add: countAction_append)
qed

lemma sqrt_bounds:
  "64 < sqrt 4100" "sqrt 4100 < 65" "61 < sqrt 3725" "sqrt 3725 < 62"
  "50 < sqrt 2600" "sqrt 2600 < 51" "90 < sqrt 8125" "sqrt 8125 < 91"
  by (simp_all add: real_less_rsqrt real_less_lsqrt)

lemma simLoop_step:
  assumes "t < maxTime" "list_ex (\<lambda>fs. \<not> isCompleted fs) fss"
    "forMachines ctx t ms fss = Some (ms', fss')"
  shows "simLoop ctx t n ms fss = simLoop ctx (t + 60) (Suc n) ms' fss'"
  by (subst simLoop.simps) (simp add: assms)

lemma simLoop_done:
  "\<not> list_ex (\<lambda>fs. \<not> isCompleted fs) fss \<Longrightarrow> simLoop ctx t n ms fss = Some (ms, fss, n)"
  by (subst simLoop.simps) simp

lemma forMachines_single:
  assumes "currentTime m \<le> t" "\<not> isCompleted fs" "machineTurn ctx m fs = Some (m', fs')"
  shows "forMachines ctx t [m] [fs] = Some ([m'], [fs'])"
  using assms by simp

lemma returnToBase_two:
  assumes "position m \<noteq> gridBaseStation ctx"
    "findShortestPath (position m) (gridBaseStation ctx) (roadNetwork ctx) = Some [a, b]"
  shows "\<exists>m'. returnToBase ctx m = Some m' \<and> supplyEvents m' = supplyEvents m
           \<and> countAction ''capacity_full'' (path m') = countAction ''capacity_full'' (path m)
           \<and> currentTime m' = currentTime m + calculateDistance (position m) b / 5"
  using assms
  by (auto simp: returnToBase_def roadTravelStep_def Let_def countAction_def mkPoint_def
      prod_eq_iff)

lemma simulate_half:
  "\<exists>m fs. simulate reqHalf = Some ([m], [fs], 6) \<and> isCompleted fs
     \<and> length (supplyEvents m) = 2 \<and> countAction ''capacity_full'' (path m) = 2"
proof -
  let ?ctx = "simCtx reqHalf"
  let ?m0 = "initMachine (50, 40) (1 / 2) 0"
  let ?f0 = "initFieldState field1"
  have m0: "currentCapacity ?m0 = 1 / 2" "position ?m0 = (50, 40)" "currentTime ?m0 = 0"
    "supplyEvents ?m0 = []" "countAction ''capacity_full'' (path ?m0) = 0"
    by (simp_all add: initMachine_def countAction_def mkPoint_def)
  have f0: "field ?f0 = field1" "completedPercentage ?f0 = 0" "lastWorkPosition ?f0 = None"
    "\<not> isCompleted ?f0"
    by (simp_all add: initFieldState_def)
  from turn1 [OF m0(1,2) f0(1-3)] obtain m1 f1 where
    t1: "machineTurn ?ctx ?m0 ?f0 = Some (m1, f1)"
    and m1: "currentCapacity m1 = 1 / 32" "position m1 = (100, 35)"
      "currentTime m1 = sqrt 4100 / 5 + (675 / 8 + sqrt 3725 / 5)"
      "supplyEvents m1 = []" "countAction ''capacity_full'' (path m1) = 1"
    and f1: "field f1 = field1" "completedPercentage f1 = 15 / 32"
      "lastWorkPosition f1 = Some (100, 35)" "\<not> isCompleted f1"
    using m0 f0 by auto
  from turn2 [OF m1(1,2) f1(1-3)] obtain m2 f2 where
    t2: "machineTurn ?ctx m1 f1 = Some (m2, f2)"
    and m2: "currentCapacity m2 = 1 / 36" "position m2 = (100, 75)"
      "currentTime m2 = currentTime m1 + sqrt 3725 / 5 + 30 + sqrt 2600 / 5 + (85 + sqrt 8125 / 5)"
      "length (supplyEvents m2) = 1" "countAction ''capacity_full'' (path m2) = 2"
    and f2: "field f2 = field1" "completedPercentage f2 = 271 / 288"
      "lastWorkPosition f2 = Some (100, 75)" "\<not> isCompleted f2"
    using m1 f1 by auto
  from turn3 [OF m2(1,2) f2(1-3)] obtain m3 f3 where
    t3: "machineTurn ?ctx m2 f2 = Some (m3, f3)"
    and m3: "position m3 = (0, 75)" "length (supplyEvents m3) = 2"
      "countAction ''capacity_full'' (path m3) = 2"
    and f3: "isCompleted f3"
    using m2 by auto
  have T1: "60 < currentTime m1" "currentTime m1 \<le> 120"
    using sqrt_bounds unfolding m1(3) by linarith+
  have T2: "240 < currentTime m2" "currentTime m2 \<le> 300"
    using sqrt_bounds unfolding m2(3) m1(3) by linarith+
  have mt: "maxTime = 28800"
    by (simp add: maxTime_def)
  have "simLoop ?ctx 0 0 [?m0] [?f0] = simLoop ?ctx 60 1 [m1] [f1]"
    using simLoop_step [of 0 "[?f0]" ?ctx "[?m0]" "[m1]" "[f1]" 0] t1 m0(3) f0(4)
    by (simp add: mt eval_nat_numeral)
  also have "\<dots> = simLoop ?ctx 120 2 [m1] [f1]"
    using simLoop_step [of 60 "[f1]" ?ctx "[m1]" "[m1]" "[f1]" 1] T1 f1(4)
    by (simp add: mt eval_nat_numeral)
  also have "\<dots> = simLoop ?ctx 180 3 [m2] [f2]"
    using simLoop_step [of 120 "[f1]" ?ctx "[m1]" "[m2]" "[f2]" 2] t2 T1 f1(4)
    by (simp add: mt eval_nat_numeral)
  also have "\<dots> = simLoop ?ctx 240 4 [m2] [f2]"
    using simLoop_step [of 180 "[f2]" ?ctx "[m2]" "[m2]" "[f2]" 3] T2 f2(4)
    by (simp add: mt eval_nat_numeral)
  also have "\<dots> = simLoop ?ctx 300 5 [m2] [f2]"
    using simLoop_step [of 240 "[f2]" ?ctx "[m2]" "[m2]" "[f2]" 4] T2 f2(4)
    by (simp add: mt eval_nat_numeral)
  also have "\<dots> = simLoop ?ctx 360 6 [m3] [f3]"
    using simLoop_step [of 300 "[f2]" ?ctx "[m2]" "[m3]" "[f3]" 5] t3 T2 f2(4)
    by (simp add: mt eval_nat_numeral)
  also have "\<dots> = Some ([m3], [f3], 6)"
    using f3 by (simp add: simLoop_done)
  finally have loop: "simLoop ?ctx 0 0 [?m0] [?f0] = Some ([m3], [f3], 6)" .
  have "findShortestPath (position m3) (gridBaseStation ?ctx) (roadNetwork ?ctx)
          = Some [(0, 70), (50, 0)]"
    using m3(1) by (simp add: ctx_half paths1)
  from returnToBase_two [OF _ this] obtain m4 where
    r: "returnToBase ?ctx m3 = Some m4"
    and m4: "supplyEvents m4 = supplyEvents m3"
      "countAction ''capacity_full'' (path m4) = countAction ''capacity_full'' (path m3)"
    using m3(1) by (auto simp: ctx_half)
  have "simulate reqHalf = Some ([m4], [f3], 6)"
    using loop r by (simp add: simulate_def reqHalf_def params1_def snap_base_half)
  with f3 m3 m4 show ?thesis
    by auto
qed

lemma efficiency_single_completed:
  assumes "isCompleted fs"
  shows "calculateEfficiency [m] [fs] = Finite 1"
proof -
  have "0 < currentTime m * currentTime m + 1"
    by (metis add_nonneg_pos zero_le_square zero_less_one)
  then have "currentTime m * currentTime m + 1 \<noteq> 0"
    by simp
  with assms show ?thesis
    by (simp add: calculateEfficiency_def Let_def js_div_def js_sub_def)
qed

text \<open>
  Claim C3 in its scenario: the single 100 by 80 field at the origin, one machine of
  capacity 0.5, supply duration 30 and the base station at \<open>(50, 40)\<close>. The field is
  completed (the efficiency is 1), but before that the machine logs \<open>capacity_full\<close> twice
  and is resupplied twice, so \<open>totalSupplyEvents\<close> is 2 and not 1: each pass stops when
  the next point would leave less than 0.05 of the capacity, and covers \<open>15 / 32\<close> and
  then \<open>17 / 36\<close> of the field instead of one half.
\<close>

theorem half_capacity_two_supplies:
  "map_option (\<lambda>r. (totalSupplyEvents r,
                    map (\<lambda>route. countAction ''capacity_full'' (mr_path route)) (machines r),
                    efficiency r))
     (generateScheduleWithRoadNetwork reqHalf) = Some (2, [2], Finite 1)"
proof -
  obtain m fs where "simulate reqHalf = Some ([m], [fs], 6)" "isCompleted fs"
    "length (supplyEvents m) = 2" "countAction ''capacity_full'' (path m) = 2"
    using simulate_half by blast
  then show ?thesis
    by (simp add: generateScheduleWithRoadNetwork_def reqHalf_def toRoute_def
        efficiency_single_completed)
qed

subsection \<open>Progress of the fields, in every state of a run\<close>

lemma simulate_reach:
  assumes "simulate req = Some (ms, fss, n)"
  shows "fieldsReach (simCtx req) (map initFieldState (req_fields req)) fss"
proof -
  from assms obtain ms1 where
    "simLoop (simCtx req) 0 0
       (map (initMachine (snapToGrid (baseStation req)) (machineCapacity (parameters req)))
          [0..<machineCount req])
       (map initFieldState (req_fields req)) = Some (ms1, fss, n)"
    by (auto simp: simulate_def split: option.splits)
  then show ?thesis
    by (rule simLoop_reach)
qed

text \<open>
  In exact arithmetic: the field states of a run are those that \<open>fieldsReach\<close> gives from the initial
  ones (\<open>forMachines_reach\<close>, \<open>simLoop_reach\<close>, \<open>simulate_reach\<close>). In every such state
  \<open>fss\<close> each completed fraction is within \<open>[0, 1]\<close>, and a field whose fraction is at least
  0.99 is marked completed; the field that is selected for assignment is never a
  completed one; and in every later state \<open>fss'\<close> no fraction is smaller and the work
  state of a field that was completed is unchanged.
\<close>

lemma field_progress:
  assumes "fieldsReach ctx (map initFieldState fs) fss" "fieldsReach ctx fss fss'"
  shows "list_all fieldOk fss \<and> fieldsAdvance fss fss'
         \<and> (case findIncomplete fss of None \<Rightarrow> True | Some k \<Rightarrow> \<not> isCompleted (fss ! k))"
proof -
  from fieldsReach_invariant [OF assms(1) initial_fieldOk] have ok: "list_all fieldOk fss"
    by simp
  from fieldsReach_invariant [OF assms(2) ok] have "fieldsAdvance fss fss'"
    by simp
  with ok show ?thesis
    by (auto split: option.splits dest: findIncomplete_Some)
qed

text \<open>The lemma in the single-field scenario with capacity one half, from the initial
  state to the state after the first pass, where the fraction is \<open>15 / 32\<close>.\<close>

lemma field_progress_instance:
  "\<exists>fs'. fieldsReach (simCtx reqHalf) (map initFieldState [field1]) [initFieldState field1]
     \<and> fieldsReach (simCtx reqHalf) [initFieldState field1] [fs']
     \<and> completedPercentage fs' = 15 / 32
     \<and> list_all fieldOk [initFieldState field1]
     \<and> fieldsAdvance [initFieldState field1] [fs']
     \<and> \<not> isCompleted (initFieldState field1)"
proof -
  let ?ctx = "simCtx reqHalf"
  let ?m0 = "initMachine (50, 40) (1 / 2) 0"
  let ?f0 = "initFieldState field1"
  have m0: "currentCapacity ?m0 = 1 / 2" "position ?m0 = (50, 40)"
    by (simp_all add: initMachine_def)
  have f0: "field ?f0 = field1" "completedPercentage ?f0 = 0" "lastWorkPosition ?f0 = None"
    by (simp_all add: initFieldState_def)
  from turn1 [OF m0 f0] obtain m1 f1 where
    t1: "machineTurn ?ctx ?m0 ([?f0] ! 0) = Some (m1, f1)" and c: "completedPercentage f1 = 15 / 32"
    by auto
  have i: "findIncomplete [?f0] = Some 0"
    by (simp add: initFieldState_def)
  have r1: "fieldsReach ?ctx (map initFieldState [field1]) [?f0]"
    by (simp add: fieldsReach.start)
  have "fieldsReach ?ctx [?f0] ([?f0][0 := f1])"
    using fieldsReach.start i t1 by (rule fieldsReach.turn)
  then have r2: "fieldsReach ?ctx [?f0] [f1]"
    by simp
  from field_progress [OF r1 r2] r1 r2 c i show ?thesis
    by (intro exI [of _ f1]) simp
qed

end
